theory Spec2Isabelle
  imports Complex_Main "HOL-Library.Product_Lexorder" "HOL-Library.Multiset"
begin

section \<open>The puzzle engine (class TowerOfHanoi)\<close>

text \<open>
  The class keeps three JavaScript arrays of DOM elements, \<open>this.towers\<close>, each listing
  the disks of one peg from the bottom (index 0) to the top (last index): \<open>push\<close> and
  \<open>pop\<close> work at the end of the array. A disk is a \<open>div\<close> whose only datum is
  \<open>style.width\<close>, the string \<open>i * 25 + 20\<close> followed by \<open>px\<close>; the game reads it back
  with \<open>parseInt\<close>, which gives the number again. The model keeps that number.

  Left out of the state: the DOM mirror \<open>towerElements\<close> (its children are the same disks
  in the same order, kept in step by \<open>appendChild\<close> and \<open>removeChild\<close>), the CSS class
  \<open>selected\<close>, the text of the displays and of the start button, and the timer
  (\<open>startTime\<close>, \<open>timerInterval\<close>). The counter \<open>moves\<close> is a JavaScript number that only
  ever grows by one from zero, so it is a natural number here.
\<close>

datatype error = TypeError

datatype disk = Disk (style_width: nat)

record game =
  numDisks :: nat
  towers :: "disk list list"
  selectedTower :: "nat option"
  moves :: nat
  isPlaying :: bool
  minMoves :: nat

text \<open>\<open>parseInt(disk.style.width)\<close>: the digits before \<open>px\<close>.\<close>

definition parseInt_width :: "disk \<Rightarrow> nat" where
  "parseInt_width d = style_width d"

text \<open>The body of the loop of \<open>initializeGame\<close> creates the disk of rank \<open>i\<close>.\<close>

definition createDisk :: "nat \<Rightarrow> disk" where
  "createDisk i = Disk (i * 25 + 20)"

text \<open>
  \<open>this.towers[k].push(d)\<close>. Reading \<open>length\<close>, \<open>push\<close> or \<open>pop\<close> of
  \<open>this.towers[k]\<close> when the outer array has no index \<open>k\<close> is a property access on
  \<open>undefined\<close>: JavaScript throws a TypeError.
\<close>

definition tower_push :: "nat \<Rightarrow> disk \<Rightarrow> game \<Rightarrow> error + game" where
  "tower_push k d g =
     (if k < length (towers g)
      then Inr (g\<lparr>towers := (towers g)[k := towers g ! k @ [d]]\<rparr>)
      else Inl TypeError)"

text \<open>\<open>for (let i = this.numDisks; i > 0; i--) this.towers[0].push(disk i)\<close>.\<close>

fun initializeGame_loop :: "nat \<Rightarrow> game \<Rightarrow> error + game" where
  "initializeGame_loop 0 g = Inr g"
| "initializeGame_loop (Suc k) g =
     (case tower_push 0 (createDisk (Suc k)) g of
        Inl e \<Rightarrow> Inl e
      | Inr g' \<Rightarrow> initializeGame_loop k g')"

definition initializeGame :: "game \<Rightarrow> error + game" where
  "initializeGame g = initializeGame_loop (numDisks g) g"

text \<open>The constructor: the fields, then \<open>initializeGame\<close>.\<close>

definition TowerOfHanoi :: "error + game" where
  "TowerOfHanoi =
     initializeGame
       \<lparr>numDisks = 6, towers = [[], [], []], selectedTower = None, moves = 0,
        isPlaying = False, minMoves = 2 ^ 6 - 1\<rparr>"

definition startGame :: "game \<Rightarrow> game" where
  "startGame g = (if \<not> isPlaying g then g\<lparr>isPlaying := True\<rparr> else g)"

definition isValidMove :: "nat \<Rightarrow> nat \<Rightarrow> game \<Rightarrow> error + bool" where
  "isValidMove fromTower toTower g =
     (if fromTower = toTower then Inr False
      else if \<not> fromTower < length (towers g) then Inl TypeError
      else if length (towers g ! fromTower) = 0 then Inr False
      else if \<not> toTower < length (towers g) then Inl TypeError
      else if length (towers g ! toTower) = 0 then Inr True
      else Inr (parseInt_width (last (towers g ! fromTower))
                  < parseInt_width (last (towers g ! toTower))))"

text \<open>
  \<open>moveDisk\<close> pops the last disk of one array and pushes it on the other. On an empty
  source array \<open>pop\<close> gives \<open>undefined\<close>, and \<open>removeChild(undefined)\<close> throws;
  \<open>handleTowerClick\<close> calls \<open>moveDisk\<close> only after \<open>isValidMove\<close> has answered true,
  so that case is never run, and the model answers it with the error alone.
\<close>

definition moveDisk :: "nat \<Rightarrow> nat \<Rightarrow> game \<Rightarrow> error + game" where
  "moveDisk fromTower toTower g =
     (if \<not> fromTower < length (towers g) then Inl TypeError
      else if towers g ! fromTower = [] then Inl TypeError
      else
        let disk = last (towers g ! fromTower);
            g1 = g\<lparr>towers := (towers g)[fromTower := butlast (towers g ! fromTower)]\<rparr>
        in tower_push toTower disk g1)"

definition checkWin :: "game \<Rightarrow> error + bool" where
  "checkWin g =
     (if 2 < length (towers g)
      then Inr (length (towers g ! 2) = numDisks g)
      else Inl TypeError)"

text \<open>
  \<open>handleWin\<close> stops the timer, clears \<open>isPlaying\<close> and starts \<open>saveScore\<close>, an
  asynchronous dialogue with the player and the server that reads \<open>moves\<close> and writes no
  field of the game.
\<close>

definition handleWin :: "game \<Rightarrow> game" where
  "handleWin g = g\<lparr>isPlaying := False\<rparr>"

text \<open>
  \<open>handleTowerClick\<close>. With a tower selected, the handler first takes the top disk of
  the selected tower to remove its CSS class: on an empty selected tower that disk is
  \<open>undefined\<close> and the access throws before anything else happens.
\<close>

definition handleTowerClick :: "nat \<Rightarrow> game \<Rightarrow> error + game" where
  "handleTowerClick towerIndex g =
     (if \<not> isPlaying g then Inr g
      else case selectedTower g of
        None \<Rightarrow>
          (if \<not> towerIndex < length (towers g) then Inl TypeError
           else if length (towers g ! towerIndex) > 0
           then Inr (g\<lparr>selectedTower := Some towerIndex\<rparr>)
           else Inr g)
      | Some sel \<Rightarrow>
          (if \<not> sel < length (towers g) then Inl TypeError
           else if towers g ! sel = [] then Inl TypeError
           else case isValidMove sel towerIndex g of
             Inl e \<Rightarrow> Inl e
           | Inr valid \<Rightarrow>
               (if valid then
                  (case moveDisk sel towerIndex g of
                     Inl e \<Rightarrow> Inl e
                   | Inr g1 \<Rightarrow>
                       let g2 = g1\<lparr>moves := moves g1 + 1\<rparr> in
                       (case checkWin g2 of
                          Inl e \<Rightarrow> Inl e
                        | Inr won \<Rightarrow>
                            Inr ((if won then handleWin g2 else g2)
                                   \<lparr>selectedTower := None\<rparr>)))
                else Inr (g\<lparr>selectedTower := None\<rparr>))))"

text \<open>
  \<open>resetGame\<close>: every tower array is emptied in place (\<open>tower.length = 0\<close>), the
  counters and flags are reset, and \<open>initializeGame\<close> fills tower 0 again.
\<close>

definition resetGame :: "game \<Rightarrow> error + game" where
  "resetGame g =
     initializeGame
       (g\<lparr>towers := map (\<lambda>tower. []) (towers g), moves := 0, isPlaying := False,
          selectedTower := None\<rparr>)"

text \<open>
  The page's events. The constructor registers one click listener per element of
  \<open>towerElements\<close>, that is for the indices 0, 1 and 2, and one each for the start and
  the reset button. An exception leaves the listener; on a game with three towers every
  throw of the handlers above comes before the first assignment, so the game is then as
  it was.
\<close>

datatype event = Click nat | Start | Reset

definition fire :: "event \<Rightarrow> game \<Rightarrow> game" where
  "fire ev g =
     (case ev of
        Click i \<Rightarrow>
          (if i < 3
           then (case handleTowerClick i g of Inr g' \<Rightarrow> g' | Inl e \<Rightarrow> g)
           else g)
      | Start \<Rightarrow> startGame g
      | Reset \<Rightarrow> (case resetGame g of Inr g' \<Rightarrow> g' | Inl e \<Rightarrow> g))"

fun run :: "event list \<Rightarrow> game \<Rightarrow> game" where
  "run [] g = g"
| "run (ev # evs) g = run evs (fire ev g)"

text \<open>
  The rule of the puzzle in the specification's words: the pegs differ, the source peg is
  not empty, and the target peg is empty or its top disk is larger than the source's.
\<close>

definition legal :: "nat \<Rightarrow> nat \<Rightarrow> game \<Rightarrow> bool" where
  "legal fromPeg toPeg g \<longleftrightarrow>
     fromPeg \<noteq> toPeg \<and> towers g ! fromPeg \<noteq> [] \<and>
     (towers g ! toPeg = [] \<or>
      style_width (last (towers g ! toPeg)) > style_width (last (towers g ! fromPeg)))"

text \<open>A peg in order: strictly decreasing width from the bottom to the top.\<close>

definition decreasing :: "disk list \<Rightarrow> bool" where
  "decreasing tower = sorted_wrt (\<lambda>lower upper. style_width lower > style_width upper) tower"

text \<open>The six disks of the game, the largest first.\<close>

definition full_stack :: "disk list" where
  "full_stack = map createDisk [6, 5, 4, 3, 2, 1]"

text \<open>The pegs after the top disk of peg \<open>s\<close> has gone to peg \<open>t\<close>.\<close>

definition moved :: "nat \<Rightarrow> nat \<Rightarrow> disk list list \<Rightarrow> disk list list" where
  "moved s t ts = ts[s := butlast (ts ! s), t := ts ! t @ [last (ts ! s)]]"

text \<open>
  Three pegs, each in order, which together hold each disk of the full set once.
\<close>

definition pegs_ok :: "disk list list \<Rightarrow> bool" where
  "pegs_ok ts \<longleftrightarrow>
     length ts = 3 \<and> decreasing (ts ! 0) \<and> decreasing (ts ! 1) \<and> decreasing (ts ! 2) \<and>
     distinct (concat ts) \<and> set (concat ts) = set full_stack"

text \<open>
  What every state the page can reach satisfies: the pegs are in order and complete, six
  disks are in play, and a selection is only ever on a peg that holds a disk.
\<close>

definition game_inv :: "game \<Rightarrow> bool" where
  "game_inv g \<longleftrightarrow>
     pegs_ok (towers g) \<and> numDisks g = 6 \<and>
     (case selectedTower g of None \<Rightarrow> True | Some s \<Rightarrow> s < 3 \<and> towers g ! s \<noteq> [])"

section \<open>The score service (server.js and its plain sibling)\<close>

text \<open>
  Two Express servers are in the repository. \<open>server.js\<close> validates name, time, moves
  and date, asks the table for the recent submissions of the sender's IP address, caps
  the table at 100 rows and stores the address of the sender. Its sibling (the second
  server file, listening on port 3003; its definitions carry the suffix \<open>_plain\<close>)
  validates less, stores no address, has no cap and adds \<open>DELETE /api/scores\<close>.

  The handlers are modelled from the parsed request body on: the middleware in front of
  them (helmet, the request limiter of 100 requests per 15 minutes, CORS, the body
  parser and its size limit, the static files) is not part of the model. The table is
  the only state, and a request is handled to its end before the next one starts.
\<close>

subsection \<open>JavaScript values\<close>

text \<open>
  A JavaScript string is a sequence of UTF-16 code units, and \<open>length\<close> counts them.
\<close>

type_synonym jsstring = "nat list"

definition utf16 :: "string \<Rightarrow> jsstring" where
  "utf16 s = map of_char s"

text \<open>
  A number that \<open>JSON.parse\<close> can give: a finite double, which is a rational, or an
  infinity (a literal beyond the range of the doubles, such as \<open>1e999\<close>). JSON has no
  NaN.
\<close>

datatype number = NegInf | Fin rat | PosInf

instantiation number :: linorder
begin

fun less_eq_number :: "number \<Rightarrow> number \<Rightarrow> bool" where
  "less_eq_number NegInf y = True"
| "less_eq_number (Fin a) NegInf = False"
| "less_eq_number (Fin a) (Fin b) = (a \<le> b)"
| "less_eq_number (Fin a) PosInf = True"
| "less_eq_number PosInf NegInf = False"
| "less_eq_number PosInf (Fin b) = False"
| "less_eq_number PosInf PosInf = True"

definition less_number :: "number \<Rightarrow> number \<Rightarrow> bool" where
  "less_number x y \<longleftrightarrow> x \<le> y \<and> \<not> y \<le> x"

instance
proof
  fix x y z :: number
  show "(x < y) = (x \<le> y \<and> \<not> y \<le> x)"
    by (simp add: less_number_def)
  show "x \<le> x"
    by (cases x) simp_all
  show "x \<le> y \<Longrightarrow> y \<le> z \<Longrightarrow> x \<le> z"
    by (cases x; cases y; cases z) simp_all
  show "x \<le> y \<Longrightarrow> y \<le> x \<Longrightarrow> x = y"
    by (cases x; cases y) simp_all
  show "x \<le> y \<or> y \<le> x"
    by (cases x; cases y) auto
qed

end

text \<open>
  The value of a field of the request body. \<open>JUndefined\<close> is a field that is absent,
  \<open>JArray\<close> an array with its elements, and \<open>JObject\<close> stands for any other object.
\<close>

datatype jsval =
  JUndefined | JNull | JBool bool | JNum number | JStr jsstring | JArray "jsval list" | JObject

text \<open>JavaScript's conversion to a boolean, as \<open>!name\<close> applies it.\<close>

fun truthy :: "jsval \<Rightarrow> bool" where
  "truthy JUndefined = False"
| "truthy JNull = False"
| "truthy (JBool b) = b"
| "truthy (JNum n) = (n \<noteq> Fin 0)"
| "truthy (JStr s) = (s \<noteq> [])"
| "truthy (JArray vs) = True"
| "truthy JObject = True"

fun is_string :: "jsval \<Rightarrow> bool" where
  "is_string (JStr s) = True"
| "is_string v = False"

fun is_number :: "jsval \<Rightarrow> bool" where
  "is_number (JNum n) = True"
| "is_number v = False"

text \<open>
  The string and the number of a value. The validators read them only behind the
  \<open>typeof\<close> test of the same condition (\<open>||\<close> evaluates its right side only when the
  left side is false), so the value given for the other shapes is never used.
\<close>

fun string_of :: "jsval \<Rightarrow> jsstring" where
  "string_of (JStr s) = s"
| "string_of v = []"

fun number_of :: "jsval \<Rightarrow> number" where
  "number_of (JNum n) = n"
| "number_of v = Fin 0"

text \<open>
  \<open>String.prototype.trim\<close> removes the white space and line terminators of ECMAScript
  from both ends.
\<close>

definition is_whitespace :: "nat \<Rightarrow> bool" where
  "is_whitespace c \<longleftrightarrow>
     c \<in> set [9, 10, 11, 12, 13, 32, 160, 5760, 8232, 8233, 8239, 8287, 12288, 65279]
     \<or> (8192 \<le> c \<and> c \<le> 8202)"

definition trim :: "jsstring \<Rightarrow> jsstring" where
  "trim s = rev (dropWhile is_whitespace (rev (dropWhile is_whitespace s)))"

subsection \<open>The request, the table and what the handlers take from outside\<close>

text \<open>The four fields the handlers read of \<open>req.body\<close>.\<close>

record score =
  body_name :: jsval
  body_time :: jsval
  body_moves :: jsval
  body_date :: jsval

text \<open>
  A row of the table \<open>scores\<close>. The columns \<open>id\<close>, \<open>name\<close>, \<open>time\<close>, \<open>moves\<close> and
  \<open>date\<close> are those of both servers; \<open>server.js\<close> adds \<open>ip_address\<close>. A validator has
  checked \<open>typeof name === 'string'\<close> and \<open>typeof time, moves === 'number'\<close> before any
  insert, so these columns hold strings and numbers.
\<close>

record score_row =
  row_id :: nat
  row_name :: jsstring
  row_time :: number
  row_moves :: number
  row_date :: jsstring

record ip_row = score_row +
  ip_address :: jsstring

text \<open>
  The table: its rows in the order of insertion, and the largest row id ever given,
  which SQLite keeps for an \<open>AUTOINCREMENT\<close> key.
\<close>

record 'r table =
  rows :: "'r list"
  sqlite_sequence :: nat

text \<open>
  What a handler takes from outside the repository: the clock (\<open>new Date()\<close>, in
  milliseconds), JavaScript's \<open>new Date(v).getTime()\<close> (\<open>None\<close> for NaN, an invalid
  date), and the text SQLite stores when a number is written to a column of type TEXT.
\<close>

record env =
  now :: int
  date_getTime :: "jsval \<Rightarrow> int option"
  text_of_number :: "number \<Rightarrow> jsstring"

text \<open>What a validator returns: \<open>{ valid: true }\<close> or \<open>{ valid: false, error }\<close>.\<close>

datatype validation = Valid | Invalid string

text \<open>The exception of better-sqlite3 for a statement that SQLite refuses.\<close>

datatype sql_error = SqliteError

text \<open>
  The answer of a handler: status 200 with its JSON body, status 400 with the text of
  \<open>error\<close>, or status 500 (the text of its body is fixed in \<open>server.js\<close> and the
  message of the exception in the sibling).
\<close>

datatype 'a response = Status200 'a | Status400 string | Status500

subsection \<open>SQL\<close>

text \<open>
  \<open>ORDER BY moves ASC, time ASC\<close> sorts by the pair of the two columns, and
  \<open>ORDER BY moves DESC, time DESC\<close> by the same pair downwards. Rows that agree on both
  columns come in the order of the table, the row inserted first before the others, in
  both directions.
\<close>

definition rank :: "'a score_row_scheme \<Rightarrow> number \<times> number" where
  "rank r = (row_moves r, row_time r)"

definition order_by_asc :: "'a score_row_scheme list \<Rightarrow> 'a score_row_scheme list" where
  "order_by_asc rs = sort_key rank rs"

definition order_by_desc :: "'a score_row_scheme list \<Rightarrow> 'a score_row_scheme list" where
  "order_by_desc rs = rev (sort_key rank (rev rs))"

text \<open>\<open>SELECT id, name, time, moves, date\<close>.\<close>

definition select_columns :: "'a score_row_scheme \<Rightarrow> score_row" where
  "select_columns r =
     \<lparr>row_id = row_id r, row_name = row_name r, row_time = row_time r,
      row_moves = row_moves r, row_date = row_date r\<rparr>"

text \<open>
  Binding one JavaScript value to the column \<open>date TEXT NOT NULL\<close>: a string is
  stored as it is and a number as SQLite's text for it; \<open>null\<close> violates \<open>NOT NULL\<close>,
  and better-sqlite3 refuses to bind \<open>undefined\<close>, a boolean, an object or an array.
  Both failures are exceptions (\<open>None\<close>).
\<close>

fun bind_value :: "env \<Rightarrow> jsval \<Rightarrow> jsstring option" where
  "bind_value e (JStr s) = Some s"
| "bind_value e (JNum n) = Some (text_of_number e n)"
| "bind_value e v = None"

text \<open>
  The argument \<open>score.date\<close> of \<open>insert.run\<close>. better-sqlite3 takes an array among the
  arguments of \<open>run\<close> as a list of parameters and binds its elements: an array of one
  element gives the statement its five values, and any other array too few or too many
  (an exception). A plain object is taken as named parameters, of which the statement has
  none: the values are then too few.
\<close>

fun bind_text :: "env \<Rightarrow> jsval \<Rightarrow> jsstring option" where
  "bind_text e (JArray [v]) = bind_value e v"
| "bind_text e (JArray vs) = None"
| "bind_text e JObject = None"
| "bind_text e v = bind_value e v"

text \<open>The id of the next row of an \<open>AUTOINCREMENT\<close> key.\<close>

definition next_rowid :: "('a score_row_scheme) table \<Rightarrow> nat" where
  "next_rowid db = max (sqlite_sequence db) (foldr max (map row_id (rows db)) 0) + 1"

subsection \<open>server.js\<close>

definition minMoves_server :: number where
  "minMoves_server = Fin (2 ^ 6 - 1)"

text \<open>
  \<open>validateScore\<close>. Behind the checks of the four fields the validator prepares
  \<open>SELECT COUNT(*) as count FROM scores WHERE ip_address = ? AND date >
  datetime("now", "-1 hour")\<close>. The statement writes \<open>now\<close> and \<open>-1 hour\<close> in double
  quotes. better-sqlite3 builds SQLite with double-quoted string literals switched off
  (\<open>SQLITE_DQS=0\<close>), so SQLite reads \<open>"now"\<close> as the name of a column, finds none, and
  \<open>db.prepare\<close> throws. The two returns behind the statement, the one for five or more
  rows and \<open>{ valid: true }\<close>, are never reached.
\<close>

definition validateScore ::
  "env \<Rightarrow> ip_row table \<Rightarrow> score \<Rightarrow> jsstring \<Rightarrow> sql_error + validation" where
  "validateScore e db score ip =
     (if \<not> truthy (body_name score) \<or> \<not> is_string (body_name score)
         \<or> length (trim (string_of (body_name score))) = 0
      then Inr (Invalid ''Invalid name'')
      else if length (string_of (body_name score)) > 50
      then Inr (Invalid ''Name too long'')
      else if \<not> is_number (body_time score) \<or> number_of (body_time score) < Fin 0
              \<or> number_of (body_time score) > Fin 3600
      then Inr (Invalid ''Invalid time'')
      else if \<not> is_number (body_moves score) \<or> number_of (body_moves score) < Fin 0
      then Inr (Invalid ''Invalid moves'')
      else if number_of (body_moves score) < minMoves_server
      then Inr (Invalid ''Invalid number of moves'')
      else
        (case date_getTime e (body_date score) of
           None \<Rightarrow> Inr (Invalid ''Invalid date'')
         | Some scoreDate \<Rightarrow>
             if scoreDate > now e then Inr (Invalid ''Invalid date'')
             else Inl SqliteError))"

text \<open>\<open>GET /api/scores\<close>: the answer and the table after it.\<close>

definition get_scores :: "ip_row table \<Rightarrow> score_row list response \<times> ip_row table" where
  "get_scores db = (Status200 (map select_columns (take 10 (order_by_asc (rows db)))), db)"

text \<open>
  \<open>DELETE FROM scores WHERE id = (SELECT id FROM scores ORDER BY moves DESC, time DESC
  LIMIT 1)\<close>. On an empty table the inner query gives NULL and no row is deleted; of
  several rows with the most moves and the longest time the inner query gives the one
  inserted first.
\<close>

definition delete_worst :: "ip_row table \<Rightarrow> ip_row table" where
  "delete_worst db =
     (case order_by_desc (rows db) of
        [] \<Rightarrow> db
      | worst # others \<Rightarrow> db\<lparr>rows := filter (\<lambda>r. row_id r \<noteq> row_id worst) (rows db)\<rparr>)"

text \<open>
  \<open>insert.run(score.name, score.time, score.moves, score.date, ip)\<close>: the new id and
  the table, or \<open>None\<close> when the statement throws. The validator lets a request pass
  its checks of the fields only with a name that is a string and a time and moves that
  are numbers; the model answers the other shapes, which never reach the statement,
  with \<open>None\<close>.
\<close>

definition insert_run :: "env \<Rightarrow> score \<Rightarrow> jsstring \<Rightarrow> ip_row table \<Rightarrow> (nat \<times> ip_row table) option" where
  "insert_run e score ip db =
     (case body_name score of
        JStr n \<Rightarrow>
          (case body_time score of
             JNum t \<Rightarrow>
               (case body_moves score of
                  JNum m \<Rightarrow>
                    (case bind_text e (body_date score) of
                       Some d \<Rightarrow>
                         Some (next_rowid db,
                               db\<lparr>rows := rows db @
                                     [\<lparr>row_id = next_rowid db, row_name = n, row_time = t,
                                       row_moves = m, row_date = d, ip_address = ip\<rparr>],
                                   sqlite_sequence := next_rowid db\<rparr>)
                     | None \<Rightarrow> None)
                | _ \<Rightarrow> None)
           | _ \<Rightarrow> None)
      | _ \<Rightarrow> None)"

text \<open>
  The \<open>try\<close> block of the handler of \<open>POST /api/scores\<close>: the count of the rows, the
  deletion of the worst row of a table of 100 rows or more, and the insertion. The
  deletion and the insertion are two statements: when the insertion throws, the deletion
  has already happened, and the \<open>catch\<close> answers with status 500.
\<close>

definition store_score ::
  "env \<Rightarrow> score \<Rightarrow> jsstring \<Rightarrow> ip_row table \<Rightarrow> nat response \<times> ip_row table" where
  "store_score e score ip db =
     (let db1 = (if length (rows db) \<ge> 100 then delete_worst db else db) in
      (case insert_run e score ip db1 of
         None \<Rightarrow> (Status500, db1)
       | Some (i, db2) \<Rightarrow> (Status200 i, db2)))"

text \<open>
  \<open>POST /api/scores\<close>. The handler calls \<open>validateScore\<close> before its \<open>try\<close> block: an
  exception of the validator leaves the handler, and the error-handling middleware at
  the end of the file answers with status 500.
\<close>

definition post_scores ::
  "env \<Rightarrow> score \<Rightarrow> jsstring \<Rightarrow> ip_row table \<Rightarrow> nat response \<times> ip_row table" where
  "post_scores e score ip db =
     (case validateScore e db score ip of
        Inl err \<Rightarrow> (Status500, db)
      | Inr (Invalid msg) \<Rightarrow> (Status400 msg, db)
      | Inr Valid \<Rightarrow> store_score e score ip db)"

text \<open>
  Requests handled one after the other: each with the clock and the address it arrives
  with.
\<close>

fun post_all ::
  "(env \<times> jsstring \<times> score) list \<Rightarrow> ip_row table \<Rightarrow> nat response list \<times> ip_row table" where
  "post_all [] db = ([], db)"
| "post_all ((e, ip, score) # rest) db =
     (case post_scores e score ip db of
        (r, db1) \<Rightarrow> (case post_all rest db1 of (rs, db2) \<Rightarrow> (r # rs, db2)))"

subsection \<open>The plain sibling\<close>

definition minMoves_plain :: number where
  "minMoves_plain = Fin (2 ^ 6 - 1)"

definition validateScore_plain :: "score \<Rightarrow> validation" where
  "validateScore_plain score =
     (if \<not> truthy (body_name score) \<or> \<not> is_string (body_name score)
         \<or> length (trim (string_of (body_name score))) = 0
      then Invalid ''Invalid name''
      else if \<not> is_number (body_time score) \<or> number_of (body_time score) < Fin 0
      then Invalid ''Invalid time''
      else if \<not> is_number (body_moves score) \<or> number_of (body_moves score) < Fin 0
      then Invalid ''Invalid moves''
      else if number_of (body_moves score) < minMoves_plain
      then Invalid ''Invalid number of moves''
      else Valid)"

text \<open>
  \<open>SELECT * FROM scores ORDER BY moves ASC, time ASC LIMIT 10\<close>, on the table this
  server creates: \<open>*\<close> is its five columns.
\<close>

definition get_scores_plain :: "score_row table \<Rightarrow> score_row list response \<times> score_row table" where
  "get_scores_plain db = (Status200 (take 10 (order_by_asc (rows db))), db)"

definition insert_run_plain :: "env \<Rightarrow> score \<Rightarrow> score_row table \<Rightarrow> (nat \<times> score_row table) option" where
  "insert_run_plain e score db =
     (case body_name score of
        JStr n \<Rightarrow>
          (case body_time score of
             JNum t \<Rightarrow>
               (case body_moves score of
                  JNum m \<Rightarrow>
                    (case bind_text e (body_date score) of
                       Some d \<Rightarrow>
                         Some (next_rowid db,
                               db\<lparr>rows := rows db @
                                     [\<lparr>row_id = next_rowid db, row_name = n, row_time = t,
                                       row_moves = m, row_date = d\<rparr>],
                                   sqlite_sequence := next_rowid db\<rparr>)
                     | None \<Rightarrow> None)
                | _ \<Rightarrow> None)
           | _ \<Rightarrow> None)
      | _ \<Rightarrow> None)"

definition post_scores_plain ::
  "env \<Rightarrow> score \<Rightarrow> score_row table \<Rightarrow> nat response \<times> score_row table" where
  "post_scores_plain e score db =
     (case validateScore_plain score of
        Invalid msg \<Rightarrow> (Status400 msg, db)
      | Valid \<Rightarrow>
          (case insert_run_plain e score db of
             None \<Rightarrow> (Status500, db)
           | Some (i, db1) \<Rightarrow> (Status200 i, db1)))"

text \<open>\<open>DELETE /api/scores\<close>: \<open>DELETE FROM scores\<close>.\<close>

definition delete_scores_plain :: "score_row table \<Rightarrow> string response \<times> score_row table" where
  "delete_scores_plain db = (Status200 ''All scores deleted successfully'', db\<lparr>rows := []\<rparr>)"

subsection \<open>The rules of the specification, in its words\<close>

text \<open>Rule 1: the name is a string that is not empty after trimming.\<close>

fun nonblank_string :: "jsval \<Rightarrow> bool" where
  "nonblank_string (JStr s) = (trim s \<noteq> [])"
| "nonblank_string v = False"

text \<open>Rule 2: the time is a number from 0 to 3600.\<close>

fun time_in_range :: "jsval \<Rightarrow> bool" where
  "time_in_range (JNum n) = (Fin 0 \<le> n \<and> n \<le> Fin 3600)"
| "time_in_range v = False"

text \<open>The time rule of the plain sibling: a number that is not negative.\<close>

fun time_not_negative :: "jsval \<Rightarrow> bool" where
  "time_not_negative (JNum n) = (Fin 0 \<le> n)"
| "time_not_negative v = False"

text \<open>One row ranks no later than another: fewer moves, or the same moves in no more time.\<close>

definition ranks_before :: "'a score_row_scheme \<Rightarrow> 'b score_row_scheme \<Rightarrow> bool" where
  "ranks_before a b \<longleftrightarrow>
     row_moves a < row_moves b \<or> (row_moves a = row_moves b \<and> row_time a \<le> row_time b)"

section \<open>Concrete games and requests\<close>

text \<open>The game as the constructor leaves it.\<close>

definition page_loaded :: game where
  "page_loaded =
     \<lparr>numDisks = 6, towers = [full_stack, [], []], selectedTower = None, moves = 0,
      isPlaying = False, minMoves = 63\<rparr>"

text \<open>
  A short game: a click before the start, the start, a legal move, an attempt to put
  the second disk on the smallest, two clicks on an empty peg, a second legal move and a
  click that no listener hears.
\<close>

definition example_clicks :: "event list" where
  "example_clicks =
     [Click 0, Start, Click 0, Click 2, Click 0, Click 2, Click 1, Click 1, Click 0,
      Click 1, Click 7]"

text \<open>The start and the 63 moves of the shortest solution, two clicks each.\<close>

definition solution :: "event list" where
  "solution =
     [Start, Click 0, Click 1, Click 0, Click 2, Click 1, Click 2, Click 0, Click 1, Click 2,
      Click 0, Click 2, Click 1, Click 0, Click 1, Click 0, Click 2, Click 1, Click 2,
      Click 1, Click 0, Click 2, Click 0, Click 1, Click 2, Click 0, Click 1, Click 0,
      Click 2, Click 1, Click 2, Click 0, Click 1, Click 2, Click 0, Click 2, Click 1,
      Click 0, Click 1, Click 2, Click 0, Click 1, Click 2, Click 1, Click 0, Click 2,
      Click 0, Click 2, Click 1, Click 0, Click 1, Click 0, Click 2, Click 1, Click 2,
      Click 0, Click 1, Click 2, Click 0, Click 2, Click 1, Click 0, Click 1, Click 0,
      Click 2, Click 1, Click 2, Click 1, Click 0, Click 2, Click 0, Click 1, Click 2,
      Click 0, Click 1, Click 0, Click 2, Click 1, Click 2, Click 1, Click 0, Click 2,
      Click 0, Click 2, Click 1, Click 0, Click 1, Click 2, Click 0, Click 1, Click 2,
      Click 1, Click 0, Click 2, Click 0, Click 1, Click 2, Click 0, Click 1, Click 0,
      Click 2, Click 1, Click 2, Click 0, Click 1, Click 2, Click 0, Click 2, Click 1,
      Click 0, Click 1, Click 0, Click 2, Click 1, Click 2, Click 1, Click 0, Click 2,
      Click 0, Click 1, Click 2, Click 0, Click 1, Click 0, Click 2, Click 1, Click 2]"

text \<open>
  A game in progress, with the top disk of peg 0 selected: the short game above before
  its last two clicks.
\<close>

definition mid_game :: game where
  "mid_game =
     \<lparr>numDisks = 6,
      towers = [[Disk 170, Disk 145, Disk 120, Disk 95, Disk 70], [], [Disk 45]],
      selectedTower = Some 0, moves = 1, isPlaying = True, minMoves = 63\<rparr>"

text \<open>
  The outside of one request, on 2 November 2026 at 16:00:00 UTC. Of JavaScript's date
  parsing it holds the one string the examples send; no example stores a number as a
  date.
\<close>

definition example_env :: env where
  "example_env =
     \<lparr>now = 1793635200000,
      date_getTime =
        (\<lambda>v. if v = JStr (utf16 ''2026-11-02T15:59:00.000Z'') then Some 1793635140000
             else None),
      text_of_number = (\<lambda>n. [])\<rparr>"

text \<open>The address of the sender in the examples.\<close>

definition example_ip :: jsstring where
  "example_ip = utf16 ''203.0.113.7''"

text \<open>A score that passes every check of the fields, dated one minute before the request.\<close>

definition fresh_body :: score where
  "fresh_body =
     \<lparr>body_name = JStr (utf16 ''Ana''), body_time = JNum (Fin 100), body_moves = JNum (Fin 63),
      body_date = JStr (utf16 ''2026-11-02T15:59:00.000Z'')\<rparr>"

text \<open>The table of each server before the first insert.\<close>

definition empty_table :: "ip_row table" where
  "empty_table = \<lparr>rows = [], sqlite_sequence = 0\<rparr>"

definition empty_table_plain :: "score_row table" where
  "empty_table_plain = \<lparr>rows = [], sqlite_sequence = 0\<rparr>"

text \<open>A stored row of another sender with the given id, moves and time.\<close>

definition example_row :: "nat \<Rightarrow> rat \<Rightarrow> rat \<Rightarrow> ip_row" where
  "example_row i m t =
     \<lparr>row_id = i, row_name = utf16 ''Bo'', row_time = Fin t, row_moves = Fin m,
      row_date = utf16 ''2020-01-01T00:00:00.000Z'', ip_address = utf16 ''198.51.100.2''\<rparr>"

text \<open>A record of an answer of \<open>GET /api/scores\<close> for such a row.\<close>

definition answer_row :: "nat \<Rightarrow> rat \<Rightarrow> rat \<Rightarrow> score_row" where
  "answer_row i m t =
     \<lparr>row_id = i, row_name = utf16 ''Bo'', row_time = Fin t, row_moves = Fin m,
      row_date = utf16 ''2020-01-01T00:00:00.000Z''\<rparr>"

text \<open>Twelve rows, two of them equal in moves and time.\<close>

definition board :: "ip_row table" where
  "board =
     \<lparr>rows =
        [example_row 1 70 50, example_row 2 70 30, example_row 3 65 900,
         example_row 4 63 100, example_row 5 200 500, example_row 6 63 90,
         example_row 7 64 10, example_row 8 99 1, example_row 9 80 80,
         example_row 10 81 80, example_row 11 80 79, example_row 12 63 100],
      sqlite_sequence = 12\<rparr>"

definition board_plain :: "score_row table" where
  "board_plain = \<lparr>rows = map select_columns (rows board), sqlite_sequence = 12\<rparr>"

text \<open>
  A table at its capacity: the first and the last row of 200 moves in 500 seconds, and
  between them 98 rows of 63 moves in 100 seconds.
\<close>

definition full_table :: "ip_row table" where
  "full_table =
     \<lparr>rows =
        example_row 1 200 500 # map (\<lambda>k. example_row k 63 100) [2..<100]
          @ [example_row 100 200 500],
      sqlite_sequence = 100\<rparr>"

definition full_table_plain :: "score_row table" where
  "full_table_plain = \<lparr>rows = map select_columns (rows full_table), sqlite_sequence = 100\<rparr>"

text \<open>Five rows of the sender of the examples, each dated within the last hour.\<close>

definition busy_table :: "ip_row table" where
  "busy_table =
     \<lparr>rows =
        map (\<lambda>k. \<lparr>row_id = k, row_name = utf16 ''Ana'', row_time = Fin 100,
                   row_moves = Fin 63, row_date = utf16 ''2026-11-02T15:59:00.000Z'',
                   ip_address = example_ip\<rparr>) [1, 2, 3, 4, 5],
      sqlite_sequence = 5\<rparr>"

text \<open>Six requests with the same body from the same address at the same time.\<close>

definition six_times :: "score \<Rightarrow> (env \<times> jsstring \<times> score) list" where
  "six_times body = replicate 6 (example_env, example_ip, body)"

section \<open>Theorems about the puzzle engine\<close>

lemma TowerOfHanoi_value: "TowerOfHanoi = Inr page_loaded"
  by (simp add: TowerOfHanoi_def page_loaded_def initializeGame_def tower_push_def
      full_stack_def eval_nat_numeral)

lemmas run_simps =
  fire_def handleTowerClick_def isValidMove_def moveDisk_def tower_push_def checkWin_def
  handleWin_def startGame_def full_stack_def createDisk_def parseInt_width_def Let_def

lemma run_example_clicks:
  "run example_clicks page_loaded =
     \<lparr>numDisks = 6,
      towers = [[Disk 170, Disk 145, Disk 120, Disk 95], [Disk 70], [Disk 45]],
      selectedTower = None, moves = 2, isPlaying = True, minMoves = 63\<rparr>"
  by (simp add: example_clicks_def page_loaded_def run_simps)

lemma run_solution:
  "run solution page_loaded =
     \<lparr>numDisks = 6, towers = [[], [], full_stack], selectedTower = None, moves = 63,
      isPlaying = False, minMoves = 63\<rparr>"
  by (simp add: solution_def page_loaded_def run_simps)

subsection \<open>The order of a peg\<close>

lemma decreasing_butlast: "decreasing t \<Longrightarrow> decreasing (butlast t)"
  unfolding decreasing_def
  by (induction t) (auto dest: in_set_butlastD)

lemma decreasing_last_least:
  "decreasing t \<Longrightarrow> x \<in> set t \<Longrightarrow> style_width (last t) \<le> style_width x"
  unfolding decreasing_def
  by (induction t) (auto simp: less_imp_le)

lemma decreasing_snoc:
  "decreasing t \<Longrightarrow> t \<noteq> [] \<Longrightarrow> style_width d < style_width (last t) \<Longrightarrow> decreasing (t @ [d])"
  using decreasing_last_least[of t]
  unfolding decreasing_def
  by (auto simp: sorted_wrt_append) (meson le_less_trans not_less order.strict_trans1)

lemma decreasing_single: "decreasing [d]"
  by (simp add: decreasing_def)

lemma three_towers: "length ts = 3 \<Longrightarrow> \<exists>a b c. ts = [a, b, c]"
  by (cases ts; simp; cases "tl ts"; simp; cases "tl (tl ts)"; auto simp: length_Suc_conv)

lemma game_inv_init: "TowerOfHanoi = Inr g \<Longrightarrow> game_inv g"
  by (auto simp: TowerOfHanoi_value page_loaded_def game_inv_def pegs_ok_def decreasing_def
      full_stack_def createDisk_def)

lemma resetGame_value:
  assumes "length (towers g) = 3" and "numDisks g = 6"
  shows "resetGame g = Inr (g\<lparr>towers := [full_stack, [], []], moves := 0, isPlaying := False, selectedTower := None\<rparr>)"
proof -
  obtain a b c where ts: "towers g = [a, b, c]"
    using three_towers[OF assms(1)] by blast
  show ?thesis
    using assms(2) ts
    by (simp add: resetGame_def initializeGame_def tower_push_def full_stack_def eval_nat_numeral)
qed


lemma less_three: "(n::nat) < 3 \<Longrightarrow> n = 0 \<or> n = 1 \<or> n = 2"
  by arith

lemma decreasing_push:
  "decreasing t \<Longrightarrow> t = [] \<or> style_width d < style_width (last t) \<Longrightarrow> decreasing (t @ [d])"
  by (cases "t = []") (auto simp: decreasing_single intro: decreasing_snoc)

lemma concat_move:
  assumes len: "length ts = 3" and s: "s < 3" and t: "t < 3" and ne: "s \<noteq> t"
    and src: "ts ! s \<noteq> []"
  shows "set (concat (ts[s := butlast (ts ! s), t := ts ! t @ [last (ts ! s)]])) = set (concat ts)"
    and "distinct (concat ts) \<Longrightarrow>
         distinct (concat (ts[s := butlast (ts ! s), t := ts ! t @ [last (ts ! s)]]))"
proof -
  obtain a b c where ts: "ts = [a, b, c]"
    using len three_towers by blast
  obtain xs d where top: "ts ! s = xs @ [d]"
    using src by (metis append_butlast_last_id)
  show "set (concat (ts[s := butlast (ts ! s), t := ts ! t @ [last (ts ! s)]])) = set (concat ts)"
    using ne top less_three[OF s] less_three[OF t]
    by (auto simp: ts)
  show "distinct (concat (ts[s := butlast (ts ! s), t := ts ! t @ [last (ts ! s)]]))"
    if "distinct (concat ts)"
    using that ne top less_three[OF s] less_three[OF t]
    by (auto simp: ts)
qed

lemma pegs_ok_move:
  assumes ok: "pegs_ok ts" and s: "s < 3" and t: "t < 3" and ne: "s \<noteq> t"
    and src: "ts ! s \<noteq> []"
    and rule: "ts ! t = [] \<or> style_width (last (ts ! s)) < style_width (last (ts ! t))"
  shows "pegs_ok (ts[s := butlast (ts ! s), t := ts ! t @ [last (ts ! s)]])"
proof -
  have len: "length ts = 3"
    using ok by (simp add: pegs_ok_def)
  obtain a b c where ts: "ts = [a, b, c]"
    using len three_towers by blast
  have dec: "decreasing (butlast (ts ! s))" "decreasing (ts ! t @ [last (ts ! s)])"
    using ok s t rule less_three[OF s] less_three[OF t]
    by (auto simp: pegs_ok_def ts intro: decreasing_butlast decreasing_push)
  have "decreasing (ts[s := butlast (ts ! s), t := ts ! t @ [last (ts ! s)]] ! k)" if "k < 3" for k
    using ok ne dec less_three[OF s] less_three[OF t] less_three[OF that]
    by (auto simp: pegs_ok_def ts)
  then show ?thesis
    using ok concat_move[OF len s t ne src]
    by (simp add: pegs_ok_def)
qed


lemma isValidMove_legal:
  "length (towers g) = 3 \<Longrightarrow> f < 3 \<Longrightarrow> t < 3 \<Longrightarrow> isValidMove f t g = Inr (legal f t g)"
  by (auto simp: isValidMove_def legal_def parseInt_width_def)

lemma moveDisk_value:
  "length (towers g) = 3 \<Longrightarrow> f < 3 \<Longrightarrow> t < 3 \<Longrightarrow> f \<noteq> t \<Longrightarrow> towers g ! f \<noteq> [] \<Longrightarrow>
   moveDisk f t g = Inr (g\<lparr>towers := moved f t (towers g)\<rparr>)"
  by (simp add: moveDisk_def tower_push_def Let_def moved_def)

lemma handleTowerClick_attempt:
  assumes "length (towers g) = 3" "isPlaying g" "selectedTower g = Some f" "f < 3" "t < 3"
    "towers g ! f \<noteq> []"
  shows "handleTowerClick t g =
     Inr (if legal f t g
          then (if length (moved f t (towers g) ! 2) = numDisks g
                then g\<lparr>towers := moved f t (towers g), moves := moves g + 1,
                       isPlaying := False, selectedTower := None\<rparr>
                else g\<lparr>towers := moved f t (towers g), moves := moves g + 1,
                       selectedTower := None\<rparr>)
          else g\<lparr>selectedTower := None\<rparr>)"
proof (cases "legal f t g")
  case True
  then have "f \<noteq> t" by (simp add: legal_def)
  with assms True show ?thesis
    by (simp add: handleTowerClick_def isValidMove_legal moveDisk_value checkWin_def
        handleWin_def Let_def moved_def)
next
  case False
  with assms show ?thesis
    by (simp add: handleTowerClick_def isValidMove_legal)
qed

lemma game_inv_click:
  assumes inv: "game_inv g" and t: "t < 3" and res: "handleTowerClick t g = Inr g'"
  shows "game_inv g'"
proof (cases "isPlaying g")
  case False
  with res inv show ?thesis by (simp add: handleTowerClick_def)
next
  case True
  have len: "length (towers g) = 3" using inv by (simp add: game_inv_def pegs_ok_def)
  show ?thesis
  proof (cases "selectedTower g")
    case None
    with True res inv t len show ?thesis
      by (auto simp: handleTowerClick_def game_inv_def split: if_splits)
  next
    case (Some f)
    then have f: "f < 3" "towers g ! f \<noteq> []" using inv by (simp_all add: game_inv_def)
    note eq = handleTowerClick_attempt[OF len True Some f(1) t f(2)]
    show ?thesis
    proof (cases "legal f t g")
      case False
      with eq res inv show ?thesis by (auto simp: game_inv_def)
    next
      case L: True
      then have "pegs_ok (moved f t (towers g))"
        unfolding moved_def
        using inv f t by (intro pegs_ok_move) (auto simp: game_inv_def legal_def)
      with eq res inv L show ?thesis by (auto simp: game_inv_def split: if_splits)
    qed
  qed
qed

lemma game_inv_fire: "game_inv g \<Longrightarrow> game_inv (fire ev g)"
proof (cases ev)
  case (Click i)
  assume "game_inv g"
  then show ?thesis
    using Click game_inv_click[of g i]
    by (auto simp: fire_def split: sum.splits)
next
  case Start
  assume "game_inv g"
  then show ?thesis using Start by (auto simp: fire_def startGame_def game_inv_def split: option.splits)
next
  case Reset
  assume inv: "game_inv g"
  then have *: "length (towers g) = 3" "numDisks g = 6" by (simp_all add: game_inv_def pegs_ok_def)
  from resetGame_value[OF this] show ?thesis
    using Reset * by (simp add: fire_def game_inv_def pegs_ok_def decreasing_def full_stack_def createDisk_def)
qed

lemma game_inv_run: "game_inv g \<Longrightarrow> game_inv (run evs g)"
  by (induction evs arbitrary: g) (simp_all add: game_inv_fire)


lemma checkWin_set:
  assumes "game_inv g"
  shows "checkWin g = Inr (set (towers g ! 2) = set full_stack)"
proof -
  obtain a b c where ts: "towers g = [a, b, c]"
    using assms three_towers unfolding game_inv_def pegs_ok_def by blast
  have d: "distinct c" and sub: "set c \<subseteq> set full_stack" and n: "numDisks g = 6"
    using assms by (auto simp: game_inv_def pegs_ok_def ts)
  have card6: "card (set full_stack) = 6"
    by (simp add: full_stack_def createDisk_def)
  have "length c = 6 \<longleftrightarrow> set c = set full_stack"
  proof
    assume "length c = 6"
    then have "card (set c) = card (set full_stack)"
      using d card6 by (simp add: distinct_card)
    with sub show "set c = set full_stack"
      by (intro card_subset_eq) simp_all
  next
    assume "set c = set full_stack"
    then show "length c = 6"
      using d card6 distinct_card by metis
  qed
  then show ?thesis
    using n by (simp add: checkWin_def ts)
qed

text \<open>
  A selection is never on an empty peg in a state the page can reach. On a state with
  an empty selected peg, which no sequence of events produces, the handler would throw
  and leave the selection as it is.
\<close>

lemma selection_never_empty:
  assumes "TowerOfHanoi = Inr g0" and "selectedTower (run evs g0) = Some s"
  shows "s < 3 \<and> towers (run evs g0) ! s \<noteq> []"
proof -
  have "game_inv (run evs g0)"
    using assms(1) by (intro game_inv_run game_inv_init)
  then show ?thesis
    using assms(2) by (simp add: game_inv_def)
qed

lemma handleTowerClick_empty_selection:
  "isPlaying g \<Longrightarrow> selectedTower g = Some s \<Longrightarrow> s < length (towers g) \<Longrightarrow>
   towers g ! s = [] \<Longrightarrow> handleTowerClick t g = Inl TypeError"
  by (simp add: handleTowerClick_def)

lemma mid_game_reached: "mid_game = run (butlast (butlast example_clicks)) page_loaded"
  by (simp add: mid_game_def example_clicks_def page_loaded_def run_simps)

subsection \<open>The claims about the puzzle\<close>

text \<open>
  C1. From the game the constructor builds, after any sequence of clicks on towers and
  on the start and reset buttons (legal moves, illegal attempts, clicks no listener
  hears), there are three pegs, each peg is strictly decreasing in width from the bottom
  to the top, no disk occurs twice on the pegs, and the pegs together hold exactly the
  six disks of the full set.
\<close>

theorem pegs_stay_ordered_and_complete:
  assumes "TowerOfHanoi = Inr g0"
  shows "length (towers (run evs g0)) = 3 \<and>
         decreasing (towers (run evs g0) ! 0) \<and>
         decreasing (towers (run evs g0) ! 1) \<and>
         decreasing (towers (run evs g0) ! 2) \<and>
         distinct (concat (towers (run evs g0))) \<and>
         set (concat (towers (run evs g0))) = set full_stack \<and>
         length (concat (towers (run evs g0))) = 6"
proof -
  have inv: "game_inv (run evs g0)"
    using assms by (intro game_inv_run game_inv_init)
  then have "distinct (concat (towers (run evs g0)))"
    and "set (concat (towers (run evs g0))) = set full_stack"
    by (simp_all add: game_inv_def pegs_ok_def)
  then have "length (concat (towers (run evs g0))) = card (set full_stack)"
    using distinct_card by metis
  also have "\<dots> = 6"
    by (simp add: full_stack_def createDisk_def)
  finally show ?thesis
    using inv by (simp add: game_inv_def pegs_ok_def)
qed

theorem pegs_stay_ordered_and_complete_witness:
  "TowerOfHanoi = Inr page_loaded \<and>
   towers (run example_clicks page_loaded)
     = [[Disk 170, Disk 145, Disk 120, Disk 95], [Disk 70], [Disk 45]] \<and>
   length (towers (run example_clicks page_loaded)) = 3 \<and>
   decreasing (towers (run example_clicks page_loaded) ! 0) \<and>
   decreasing (towers (run example_clicks page_loaded) ! 1) \<and>
   decreasing (towers (run example_clicks page_loaded) ! 2) \<and>
   distinct (concat (towers (run example_clicks page_loaded))) \<and>
   set (concat (towers (run example_clicks page_loaded))) = set full_stack \<and>
   length (concat (towers (run example_clicks page_loaded))) = 6"
  using pegs_stay_ordered_and_complete [OF TowerOfHanoi_value, of example_clicks]
    TowerOfHanoi_value
  by (simp add: run_example_clicks)

text \<open>
  C2. In every state the page can reach, \<open>isValidMove\<close> answers for any two pegs exactly
  the rule of the specification: the pegs differ, the source peg is not empty, and the
  target peg is empty or its top disk is wider than the source's. When the game is
  running and a peg is selected, a click on a tower is the move attempt from the selected
  peg: if the move is legal the top disk of the source peg is popped and pushed on the
  target peg and the counter grows by one; if not, pegs and counter stay as they are; in
  both cases the selection is cleared.
\<close>

theorem attempted_move_follows_the_rule:
  assumes "TowerOfHanoi = Inr g0" and "g = run evs g0" and "fromPeg < 3" and "toPeg < 3"
  shows "isValidMove fromPeg toPeg g = Inr (legal fromPeg toPeg g) \<and>
         (isPlaying g \<and> selectedTower g = Some fromPeg \<longrightarrow>
            (\<exists>g'. handleTowerClick toPeg g = Inr g' \<and> selectedTower g' = None \<and>
               (if legal fromPeg toPeg g
                then towers g' =
                       (towers g)[fromPeg := butlast (towers g ! fromPeg),
                                  toPeg := towers g ! toPeg @ [last (towers g ! fromPeg)]]
                     \<and> moves g' = moves g + 1
                else towers g' = towers g \<and> moves g' = moves g)))"
proof -
  have inv: "game_inv g"
    using assms(1,2) by (simp add: game_inv_run game_inv_init)
  then have len: "length (towers g) = 3"
    by (simp add: game_inv_def pegs_ok_def)
  have rule: "isValidMove fromPeg toPeg g = Inr (legal fromPeg toPeg g)"
    using len assms(3,4) by (rule isValidMove_legal)
  have "\<exists>g'. handleTowerClick toPeg g = Inr g' \<and> selectedTower g' = None \<and>
          (if legal fromPeg toPeg g
           then towers g' =
                  (towers g)[fromPeg := butlast (towers g ! fromPeg),
                             toPeg := towers g ! toPeg @ [last (towers g ! fromPeg)]]
                \<and> moves g' = moves g + 1
           else towers g' = towers g \<and> moves g' = moves g)"
    if play: "isPlaying g" and sel: "selectedTower g = Some fromPeg"
  proof -
    have src: "towers g ! fromPeg \<noteq> []"
      using inv sel by (simp add: game_inv_def)
    show ?thesis
      unfolding handleTowerClick_attempt[OF len play sel assms(3,4) src]
      by (simp add: moved_def)
  qed
  with rule show ?thesis
    by blast
qed

theorem attempted_move_follows_the_rule_witness:
  "TowerOfHanoi = Inr page_loaded \<and>
   mid_game = run (butlast (butlast example_clicks)) page_loaded \<and>
   isPlaying mid_game \<and> selectedTower mid_game = Some 0 \<and>
   legal 0 1 mid_game \<and> isValidMove 0 1 mid_game = Inr True \<and>
   (\<exists>g'. handleTowerClick 1 mid_game = Inr g' \<and> selectedTower g' = None \<and>
      towers g' = [[Disk 170, Disk 145, Disk 120, Disk 95], [Disk 70], [Disk 45]] \<and>
      moves g' = moves mid_game + 1) \<and>
   \<not> legal 0 2 mid_game \<and> isValidMove 0 2 mid_game = Inr False \<and>
   (\<exists>g'. handleTowerClick 2 mid_game = Inr g' \<and> selectedTower g' = None \<and>
      towers g' = towers mid_game \<and> moves g' = moves mid_game)"
proof -
  have l1: "legal 0 1 mid_game" and l2: "\<not> legal 0 2 mid_game"
    by (simp_all add: legal_def mid_game_def)
  have s: "isPlaying mid_game" "selectedTower mid_game = Some 0"
    by (simp_all add: mid_game_def)
  have t: "(towers mid_game)[0 := butlast (towers mid_game ! 0),
             Suc 0 := towers mid_game ! Suc 0 @ [last (towers mid_game ! 0)]]
           = [[Disk 170, Disk 145, Disk 120, Disk 95], [Disk 70], [Disk 45]]"
    by (simp add: mid_game_def)
  show ?thesis
    using attempted_move_follows_the_rule
            [OF TowerOfHanoi_value mid_game_reached, of 0 1]
          attempted_move_follows_the_rule
            [OF TowerOfHanoi_value mid_game_reached, of 0 2]
          TowerOfHanoi_value mid_game_reached l1 l2 s
    by (simp add: t)
qed

text \<open>
  C3. In every state the page can reach, \<open>checkWin\<close> returns, and it returns true
  exactly when the disks on peg 2 are the six disks of the full set.
\<close>

theorem checkWin_iff_goal_peg_full:
  assumes "TowerOfHanoi = Inr g0"
  shows "checkWin (run evs g0) = Inr (set (towers (run evs g0) ! 2) = set full_stack)"
  using assms by (intro checkWin_set game_inv_run game_inv_init)

theorem checkWin_iff_goal_peg_full_witness:
  "TowerOfHanoi = Inr page_loaded \<and>
   towers (run solution page_loaded) ! 2 = full_stack \<and>
   checkWin (run solution page_loaded) = Inr True \<and>
   towers (run example_clicks page_loaded) ! 2 = [Disk 45] \<and>
   checkWin (run example_clicks page_loaded) = Inr False"
proof -
  have "set [Disk 45] \<noteq> set full_stack"
    by (simp add: full_stack_def createDisk_def)
  then show ?thesis
    using checkWin_iff_goal_peg_full [OF TowerOfHanoi_value, of solution]
      checkWin_iff_goal_peg_full [OF TowerOfHanoi_value, of example_clicks]
      TowerOfHanoi_value
    by (simp add: run_solution run_example_clicks)
qed

text \<open>
  C4. From any game with three pegs and \<open>numDisks = 6\<close> (every state the page can reach
  is one), \<open>resetGame\<close> returns a game in which peg 0 holds the six disks, the widest at
  the bottom and the narrowest on top, pegs 1 and 2 are empty, the move counter is zero,
  \<open>isPlaying\<close> is false and no peg is selected.
\<close>

theorem resetGame_restores_start:
  assumes "length (towers g) = 3" and "numDisks g = 6"
  shows "\<exists>g'. resetGame g = Inr g' \<and>
           towers g' = [full_stack, [], []] \<and>
           map style_width (towers g' ! 0) = [170, 145, 120, 95, 70, 45] \<and>
           decreasing (towers g' ! 0) \<and> length (towers g' ! 0) = 6 \<and>
           moves g' = 0 \<and> \<not> isPlaying g' \<and> selectedTower g' = None"
  unfolding resetGame_value[OF assms]
  by (simp add: full_stack_def createDisk_def decreasing_def)

theorem resetGame_restores_start_witness:
  "length (towers mid_game) = 3 \<and> numDisks mid_game = 6 \<and>
   (\<exists>g'. resetGame mid_game = Inr g' \<and>
           towers g' = [full_stack, [], []] \<and>
           map style_width (towers g' ! 0) = [170, 145, 120, 95, 70, 45] \<and>
           decreasing (towers g' ! 0) \<and> length (towers g' ! 0) = 6 \<and>
           moves g' = 0 \<and> \<not> isPlaying g' \<and> selectedTower g' = None)"
proof -
  have h: "length (towers mid_game) = 3" "numDisks mid_game = 6"
    by (simp_all add: mid_game_def)
  show ?thesis
    using resetGame_restores_start [OF h] h by simp
qed

section \<open>Theorems about the score service\<close>

subsection \<open>Numbers, names and times\<close>

lemma Fin_less [simp]: "Fin a < Fin b \<longleftrightarrow> a < b"
  by (auto simp: less_number_def)

lemma trim_Nil [simp]: "trim [] = []"
  by (simp add: trim_def)

lemma nonblank_string_iff:
  "nonblank_string v \<longleftrightarrow>
   \<not> (\<not> truthy v \<or> \<not> is_string v \<or> length (trim (string_of v)) = 0)"
  by (cases v) auto

lemma time_in_range_iff:
  "time_in_range v \<longleftrightarrow>
   \<not> (\<not> is_number v \<or> number_of v < Fin 0 \<or> number_of v > Fin 3600)"
  by (cases v) (auto simp: not_less)

lemma time_not_negative_iff:
  "time_not_negative v \<longleftrightarrow> \<not> (\<not> is_number v \<or> number_of v < Fin 0)"
  by (cases v) (auto simp: not_less)

lemmas server_simps =
  post_scores_def validateScore_def store_score_def insert_run_def next_rowid_def
  delete_worst_def minMoves_server_def trim_def is_whitespace_def utf16_def
  post_scores_plain_def validateScore_plain_def insert_run_plain_def minMoves_plain_def

lemmas example_simps =
  example_env_def example_ip_def fresh_body_def empty_table_def empty_table_plain_def

lemmas table_simps =
  board_def board_plain_def example_row_def full_table_def full_table_plain_def
  busy_table_def get_scores_def get_scores_plain_def order_by_asc_def order_by_desc_def
  rank_def select_columns_def

subsection \<open>The answers of the two handlers of POST\<close>

text \<open>
  The validator of \<open>server.js\<close> returns a failed check of a field or throws at its
  statement; it never returns \<open>{ valid: true }\<close>. So the handler answers with status 400
  or 500 and never reaches its \<open>try\<close> block: no request is stored.
\<close>

lemma validateScore_never_Valid: "validateScore e db score ip \<noteq> Inr Valid"
  by (simp add: validateScore_def split: option.splits)

lemma post_scores_invalid:
  "validateScore e db score ip = Inr (Invalid msg) \<Longrightarrow>
   post_scores e score ip db = (Status400 msg, db)"
  by (simp add: post_scores_def)

lemma post_scores_threw:
  "validateScore e db score ip = Inl SqliteError \<Longrightarrow>
   post_scores e score ip db = (Status500, db)"
  by (simp add: post_scores_def)

lemma post_scores_plain_invalid:
  "validateScore_plain score = Invalid msg \<Longrightarrow>
   post_scores_plain e score db = (Status400 msg, db)"
  by (simp add: post_scores_plain_def)

lemma store_score_not_400: "fst (store_score e score ip db) \<noteq> Status400 msg"
  by (simp add: store_score_def Let_def split: option.splits prod.splits)

lemma post_scores_400_iff:
  "fst (post_scores e score ip db) = Status400 msg \<longleftrightarrow>
   validateScore e db score ip = Inr (Invalid msg)"
  by (auto simp: post_scores_def store_score_not_400 split: sum.splits validation.splits)

lemma post_scores_plain_400_iff:
  "fst (post_scores_plain e score db) = Status400 msg \<longleftrightarrow>
   validateScore_plain score = Invalid msg"
  by (auto simp: post_scores_plain_def split: validation.splits option.splits)

lemma post_scores_never_stores:
  "snd (post_scores e score ip db) = db" and "fst (post_scores e score ip db) \<noteq> Status200 i"
  using validateScore_never_Valid[of e db score ip]
  by (auto simp: post_scores_def split: sum.splits validation.splits)

lemma sql_error_is_SqliteError: "(err :: sql_error) = SqliteError"
  by (cases err) simp

lemma post_scores_500_iff:
  "fst (post_scores e score ip db) = Status500 \<longleftrightarrow>
   validateScore e db score ip = Inl SqliteError"
  using validateScore_never_Valid[of e db score ip]
  by (cases "validateScore e db score ip")
    (auto simp: post_scores_def sql_error_is_SqliteError split: validation.splits)

subsection \<open>Validation\<close>

text \<open>
  C5, as the code has it. In \<open>server.js\<close> a name that is not a string, or is empty
  after trimming, is answered with status 400 and the error \<open>Invalid name\<close>, whatever
  the time is; a name of more than 50 code units with 400 and \<open>Name too long\<close>; and,
  when the name passes both checks, a time that is not a number from 0 to 3600 with 400
  and \<open>Invalid time\<close>. The plain sibling answers the first case in the same way and
  answers 400 and \<open>Invalid time\<close> when the name passes and the time is not a number or
  is negative; it has no limit on the length of the name and no upper bound on the time:
  its validator accepts every body with such a name, a time that is not negative and a
  number of moves of at least 63.
\<close>

theorem name_and_time_rules:
  "(\<not> nonblank_string (body_name score) \<longrightarrow>
      fst (post_scores e score ip db) = Status400 ''Invalid name'' \<and>
      fst (post_scores_plain e score dbp) = Status400 ''Invalid name'') \<and>
   (nonblank_string (body_name score) \<and> 50 < length (string_of (body_name score)) \<longrightarrow>
      fst (post_scores e score ip db) = Status400 ''Name too long'') \<and>
   (nonblank_string (body_name score) \<and> length (string_of (body_name score)) \<le> 50 \<and>
    \<not> time_in_range (body_time score) \<longrightarrow>
      fst (post_scores e score ip db) = Status400 ''Invalid time'') \<and>
   (nonblank_string (body_name score) \<and> \<not> time_not_negative (body_time score) \<longrightarrow>
      fst (post_scores_plain e score dbp) = Status400 ''Invalid time'') \<and>
   (nonblank_string (body_name score) \<and> time_not_negative (body_time score) \<and>
    is_number (body_moves score) \<and> Fin 63 \<le> number_of (body_moves score) \<longrightarrow>
      validateScore_plain score = Valid)"
proof -
  have "Fin 0 \<le> number_of (body_moves score)" if "Fin 63 \<le> number_of (body_moves score)"
  proof -
    have "Fin 0 \<le> Fin 63" by simp
    then show ?thesis using that by (rule order_trans)
  qed
  then show ?thesis
    unfolding post_scores_400_iff post_scores_plain_400_iff
    by (auto simp: validateScore_def validateScore_plain_def nonblank_string_iff
        time_in_range_iff time_not_negative_iff minMoves_plain_def not_less)
qed

theorem name_and_time_rules_witness:
  "\<not> nonblank_string (JStr (utf16 ''  '')) \<and>
   fst (post_scores example_env (fresh_body\<lparr>body_name := JStr (utf16 ''  '')\<rparr>) example_ip
          empty_table) = Status400 ''Invalid name'' \<and>
   fst (post_scores_plain example_env (fresh_body\<lparr>body_name := JStr (utf16 ''  '')\<rparr>)
          empty_table_plain) = Status400 ''Invalid name'' \<and>
   nonblank_string (JStr (replicate 51 97)) \<and> 50 < length (replicate 51 (97::nat)) \<and>
   fst (post_scores example_env (fresh_body\<lparr>body_name := JStr (replicate 51 97)\<rparr>) example_ip
          empty_table) = Status400 ''Name too long'' \<and>
   nonblank_string (JStr (utf16 ''Ana'')) \<and> length (utf16 ''Ana'') \<le> 50 \<and>
   \<not> time_in_range (JNum (Fin 3601)) \<and> time_not_negative (JNum (Fin 3601)) \<and>
   fst (post_scores example_env (fresh_body\<lparr>body_time := JNum (Fin 3601)\<rparr>) example_ip
          empty_table) = Status400 ''Invalid time'' \<and>
   validateScore_plain (fresh_body\<lparr>body_time := JNum (Fin 3601)\<rparr>) = Valid \<and>
   \<not> time_not_negative (JStr (utf16 ''12'')) \<and>
   fst (post_scores_plain example_env (fresh_body\<lparr>body_time := JStr (utf16 ''12'')\<rparr>)
          empty_table_plain) = Status400 ''Invalid time''"
proof -
  have r: "replicate 51 (97::nat) = 97 # replicate 50 97"
    by (simp add: eval_nat_numeral)
  have n1: "\<not> nonblank_string (JStr (utf16 ''  ''))"
    by (simp add: trim_def is_whitespace_def utf16_def)
  have n2: "nonblank_string (JStr (replicate 51 97))"
    by (simp add: r trim_def is_whitespace_def)
  have n3: "nonblank_string (JStr (utf16 ''Ana''))"
    by (simp add: trim_def is_whitespace_def utf16_def)
  have l3: "length (utf16 ''Ana'') \<le> 50"
    by (simp add: utf16_def)
  show ?thesis
    using name_and_time_rules
            [of "fresh_body\<lparr>body_name := JStr (utf16 ''  '')\<rparr>" example_env example_ip
                empty_table empty_table_plain]
          name_and_time_rules
            [of "fresh_body\<lparr>body_name := JStr (replicate 51 97)\<rparr>" example_env example_ip
                empty_table empty_table_plain]
          name_and_time_rules
            [of "fresh_body\<lparr>body_time := JNum (Fin 3601)\<rparr>" example_env example_ip
                empty_table empty_table_plain]
          name_and_time_rules
            [of "fresh_body\<lparr>body_time := JStr (utf16 ''12'')\<rparr>" example_env example_ip
                empty_table empty_table_plain]
          n1 n2 n3 l3
    by (simp add: fresh_body_def)
qed

text \<open>
  C5 as it is stated fails on the plain sibling: a name of 51 code units is stored, and
  so is a time of 5000 seconds.
\<close>

theorem plain_sibling_accepts_long_name_and_long_time:
  "50 < length (replicate 51 (97::nat)) \<and>
   fst (post_scores_plain example_env (fresh_body\<lparr>body_name := JStr (replicate 51 97)\<rparr>)
          empty_table_plain) = Status200 1 \<and>
   Fin 3600 < Fin 5000 \<and>
   fst (post_scores_plain example_env (fresh_body\<lparr>body_time := JNum (Fin 5000)\<rparr>)
          empty_table_plain) = Status200 1"
proof -
  have r: "replicate 51 (97::nat) = 97 # replicate 50 97"
    by (simp add: eval_nat_numeral)
  have "trim (replicate 51 97) \<noteq> []"
    by (simp add: r trim_def is_whitespace_def)
  then show ?thesis
    by (simp add: example_simps server_simps)
qed


text \<open>
  C6. A request whose \<open>moves\<close> is a number below \<open>2 ^ 6 - 1 = 63\<close> is answered with
  status 400 by both servers, and the table is as it was.
\<close>

theorem too_few_moves_rejected:
  assumes "body_moves score = JNum m" and "m < Fin (2 ^ 6 - 1)"
  shows "(\<exists>msg. post_scores e score ip db = (Status400 msg, db)) \<and>
         (\<exists>msg. post_scores_plain e score dbp = (Status400 msg, dbp))"
proof -
  have "\<exists>msg. validateScore e db score ip = Inr (Invalid msg)"
    using assms by (simp add: validateScore_def minMoves_server_def)
  moreover have "\<exists>msg. validateScore_plain score = Invalid msg"
    using assms by (simp add: validateScore_plain_def minMoves_plain_def)
  ultimately show ?thesis
    by (auto simp: post_scores_invalid post_scores_plain_invalid)
qed

theorem too_few_moves_rejected_witness:
  "body_moves (fresh_body\<lparr>body_moves := JNum (Fin 62)\<rparr>) = JNum (Fin 62) \<and>
   Fin 62 < Fin (2 ^ 6 - 1) \<and>
   post_scores example_env (fresh_body\<lparr>body_moves := JNum (Fin 62)\<rparr>) example_ip empty_table
     = (Status400 ''Invalid number of moves'', empty_table) \<and>
   post_scores_plain example_env (fresh_body\<lparr>body_moves := JNum (Fin 62)\<rparr>) empty_table_plain
     = (Status400 ''Invalid number of moves'', empty_table_plain)"
proof -
  have h: "body_moves (fresh_body\<lparr>body_moves := JNum (Fin 62)\<rparr>) = JNum (Fin 62)"
    "Fin 62 < Fin (2 ^ 6 - 1)"
    by simp_all
  show ?thesis
    using too_few_moves_rejected
            [OF h, of example_env example_ip empty_table empty_table_plain] h
    by (simp add: example_simps server_simps)
qed

text \<open>
  C10. Whenever \<open>POST /api/scores\<close> answers with status 400, in either server, the
  table after the request is the table before it.
\<close>

theorem rejected_post_leaves_store:
  "(fst (post_scores e score ip db) = Status400 msg \<longrightarrow> snd (post_scores e score ip db) = db) \<and>
   (fst (post_scores_plain e score dbp) = Status400 msg \<longrightarrow>
      snd (post_scores_plain e score dbp) = dbp)"
  by (auto simp: post_scores_400_iff post_scores_plain_400_iff post_scores_invalid
      post_scores_plain_invalid)

theorem rejected_post_leaves_store_witness:
  "fst (post_scores example_env (fresh_body\<lparr>body_moves := JNum (Fin 62)\<rparr>) example_ip board)
     = Status400 ''Invalid number of moves'' \<and>
   snd (post_scores example_env (fresh_body\<lparr>body_moves := JNum (Fin 62)\<rparr>) example_ip board)
     = board \<and>
   fst (post_scores_plain example_env (fresh_body\<lparr>body_moves := JNum (Fin 62)\<rparr>) board_plain)
     = Status400 ''Invalid number of moves'' \<and>
   snd (post_scores_plain example_env (fresh_body\<lparr>body_moves := JNum (Fin 62)\<rparr>) board_plain)
     = board_plain"
proof -
  have a: "fst (post_scores example_env (fresh_body\<lparr>body_moves := JNum (Fin 62)\<rparr>) example_ip
                  board) = Status400 ''Invalid number of moves''"
    by (simp add: example_simps post_scores_def validateScore_def minMoves_server_def
        trim_def is_whitespace_def utf16_def)
  have b: "fst (post_scores_plain example_env (fresh_body\<lparr>body_moves := JNum (Fin 62)\<rparr>)
                  board_plain) = Status400 ''Invalid number of moves''"
    by (simp add: example_simps post_scores_plain_def validateScore_plain_def
        minMoves_plain_def trim_def is_whitespace_def utf16_def)
  show ?thesis
    using rejected_post_leaves_store
            [of example_env "fresh_body\<lparr>body_moves := JNum (Fin 62)\<rparr>" example_ip board
                "''Invalid number of moves''" board_plain]
          a b
    by simp
qed

subsection \<open>The leaderboard\<close>

lemma rank_le_iff: "rank a \<le> rank b \<longleftrightarrow> ranks_before a b"
  by (auto simp: rank_def ranks_before_def)

lemma ranks_before_select_columns [simp]:
  "ranks_before (select_columns a) (select_columns b) = ranks_before a b"
  by (simp add: ranks_before_def select_columns_def)

lemma sorted_order_by_asc: "sorted_wrt ranks_before (order_by_asc rs)"
  using sorted_sort_key[of rank rs]
  by (simp add: order_by_asc_def sorted_map rank_le_iff)

lemma mset_order_by_asc [simp]: "mset (order_by_asc rs) = mset rs"
  by (simp add: order_by_asc_def)

lemma length_order_by_asc [simp]: "length (order_by_asc rs) = length rs"
  by (simp add: order_by_asc_def)

lemma sorted_wrt_take_drop:
  assumes "sorted_wrt P xs"
  shows "sorted_wrt P (take n xs)" and "\<forall>x\<in>set (take n xs). \<forall>y\<in>set (drop n xs). P x y"
proof -
  have "sorted_wrt P (take n xs @ drop n xs)"
    using assms by simp
  then show "sorted_wrt P (take n xs)" and "\<forall>x\<in>set (take n xs). \<forall>y\<in>set (drop n xs). P x y"
    unfolding sorted_wrt_append by blast+
qed

text \<open>
  C7. For every table, \<open>GET /api/scores\<close> of either server answers with status 200 and
  leaves the table as it is. Take the rows of the table, each as often as the table
  holds it, in the order of moves, and of time among equal moves. The answer has one
  record for each of the first ten of them, or for all when there are fewer, in that
  order, and the \<open>id\<close>, \<open>name\<close>, \<open>time\<close>, \<open>moves\<close> and \<open>date\<close> of a record are those
  of its row. A record of the answer is a value of type \<open>score_row\<close>, which has these
  five fields and no other: there is no \<open>ip_address\<close> in it.
\<close>

theorem leaderboard_top_ten:
  "(\<exists>ordered answer.
      mset ordered = mset (rows db) \<and> sorted_wrt ranks_before ordered \<and>
      get_scores db = (Status200 answer, db) \<and>
      length answer = min 10 (length (rows db)) \<and>
      map row_id answer = map row_id (take 10 ordered) \<and>
      map row_name answer = map row_name (take 10 ordered) \<and>
      map row_time answer = map row_time (take 10 ordered) \<and>
      map row_moves answer = map row_moves (take 10 ordered) \<and>
      map row_date answer = map row_date (take 10 ordered) \<and>
      sorted_wrt ranks_before answer) \<and>
   (\<exists>ordered answer.
      mset ordered = mset (rows dbp) \<and> sorted_wrt ranks_before ordered \<and>
      get_scores_plain dbp = (Status200 answer, dbp) \<and>
      length answer = min 10 (length (rows dbp)) \<and>
      answer = take 10 ordered \<and>
      sorted_wrt ranks_before answer)"
proof (intro conjI)
  let ?o = "order_by_asc (rows db)"
  have "sorted_wrt ranks_before (take 10 ?o)"
    using sorted_order_by_asc by (rule sorted_wrt_take_drop(1))
  then have "sorted_wrt ranks_before (map select_columns (take 10 ?o))"
    by (simp add: sorted_wrt_map)
  then show "\<exists>ordered answer.
      mset ordered = mset (rows db) \<and> sorted_wrt ranks_before ordered \<and>
      get_scores db = (Status200 answer, db) \<and>
      length answer = min 10 (length (rows db)) \<and>
      map row_id answer = map row_id (take 10 ordered) \<and>
      map row_name answer = map row_name (take 10 ordered) \<and>
      map row_time answer = map row_time (take 10 ordered) \<and>
      map row_moves answer = map row_moves (take 10 ordered) \<and>
      map row_date answer = map row_date (take 10 ordered) \<and>
      sorted_wrt ranks_before answer"
    using sorted_order_by_asc[of "rows db"]
    by (intro exI[of _ ?o] exI[of _ "map select_columns (take 10 ?o)"])
      (simp add: get_scores_def select_columns_def min.commute)
next
  let ?o = "order_by_asc (rows dbp)"
  have "sorted_wrt ranks_before (take 10 ?o)"
    using sorted_order_by_asc by (rule sorted_wrt_take_drop(1))
  then show "\<exists>ordered answer.
      mset ordered = mset (rows dbp) \<and> sorted_wrt ranks_before ordered \<and>
      get_scores_plain dbp = (Status200 answer, dbp) \<and>
      length answer = min 10 (length (rows dbp)) \<and>
      answer = take 10 ordered \<and>
      sorted_wrt ranks_before answer"
    using sorted_order_by_asc[of "rows dbp"]
    by (intro exI[of _ ?o] exI[of _ "take 10 ?o"])
      (simp add: get_scores_plain_def min.commute)
qed

theorem leaderboard_top_ten_witness:
  "get_scores board =
     (Status200
        [answer_row 6 63 90, answer_row 4 63 100, answer_row 12 63 100,
         answer_row 7 64 10, answer_row 3 65 900, answer_row 2 70 30,
         answer_row 1 70 50, answer_row 11 80 79, answer_row 9 80 80,
         answer_row 10 81 80], board) \<and>
   get_scores_plain board_plain =
     (Status200
        [answer_row 6 63 90, answer_row 4 63 100, answer_row 12 63 100,
         answer_row 7 64 10, answer_row 3 65 900, answer_row 2 70 30,
         answer_row 1 70 50, answer_row 11 80 79, answer_row 9 80 80,
         answer_row 10 81 80], board_plain)"
  using leaderboard_top_ten [of board board_plain]
  by (simp add: table_simps answer_row_def)

subsection \<open>The capacity of the table\<close>

lemma foldr_max_bound: "\<forall>x\<in>set xs. x \<le> n \<Longrightarrow> max n (foldr max xs 0) = (n::nat)"
  by (induction xs) auto

lemma foldr_max_upper: "x \<in> set xs \<Longrightarrow> x \<le> foldr max xs (0::nat)"
  by (induction xs) (auto simp: max_def)

lemma next_rowid_fresh: "next_rowid db \<notin> row_id ` set (rows db)"
proof
  assume "next_rowid db \<in> row_id ` set (rows db)"
  then have "next_rowid db \<in> set (map row_id (rows db))"
    by simp
  then have "next_rowid db \<le> foldr max (map row_id (rows db)) 0"
    by (rule foldr_max_upper)
  then show False
    by (simp add: next_rowid_def)
qed

lemma filter_other_ids:
  "distinct (map row_id xs) \<Longrightarrow> w \<in> set xs \<Longrightarrow>
   filter (\<lambda>r. row_id r \<noteq> row_id w) xs = remove1 w xs"
proof (induction xs)
  case Nil
  then show ?case by simp
next
  case (Cons x xs)
  show ?case
  proof (cases "x = w")
    case True
    have "row_id w \<notin> row_id ` set xs"
      using Cons.prems(1) True by simp
    then have "\<forall>r\<in>set xs. row_id r \<noteq> row_id w"
      by (metis imageI)
    then have "filter (\<lambda>r. row_id r \<noteq> row_id w) xs = xs"
      by (simp add: filter_id_conv)
    with True show ?thesis by simp
  next
    case False
    with Cons show ?thesis by auto
  qed
qed

lemma last_sort_key_greatest:
  assumes "xs \<noteq> []"
  shows "last (sort_key rank xs) \<in> set xs"
    and "\<forall>r\<in>set xs. ranks_before r (last (sort_key rank xs))"
proof -
  let ?s = "sort_key rank xs"
  have ne: "?s \<noteq> []"
    using assms by (metis length_sort length_0_conv)
  then have split: "?s = butlast ?s @ [last ?s]"
    by simp
  show "last ?s \<in> set xs"
    using last_in_set[OF ne] by simp
  have "sorted_wrt ranks_before ?s"
    using sorted_sort_key[of rank xs] by (simp add: sorted_map rank_le_iff)
  then have "sorted_wrt ranks_before (butlast ?s @ [last ?s])"
    using split by simp
  then have "\<forall>r\<in>set (butlast ?s). ranks_before r (last ?s)"
    by (simp add: sorted_wrt_append)
  moreover have "ranks_before (last ?s) (last ?s)"
    by (simp add: ranks_before_def)
  moreover have "set xs = set (butlast ?s) \<union> {last ?s}"
    using split set_sort[of rank xs] by (metis set_append list.set(1,2))
  ultimately show "\<forall>r\<in>set xs. ranks_before r (last ?s)"
    by auto
qed

lemma last_filter_last:
  "xs \<noteq> [] \<Longrightarrow> P (last xs) \<Longrightarrow> last (filter P xs) = last xs"
proof (induction xs)
  case Nil
  then show ?case by simp
next
  case (Cons x xs)
  show ?case
  proof (cases "xs = []")
    case True
    with Cons.prems show ?thesis by simp
  next
    case False
    then have l: "last (x # xs) = last xs" by simp
    then have "P (last xs)" using Cons.prems(2) by simp
    moreover have "last xs \<in> set xs" using False by simp
    ultimately have "filter P xs \<noteq> []"
      by (auto simp: filter_empty_conv)
    then show ?thesis
      using Cons.IH[OF False] \<open>P (last xs)\<close> l by simp
  qed
qed

text \<open>
  The row the deletion removes: no row of the table ranks behind it, and it is the first
  row of the table with its moves and its time.
\<close>

lemma delete_worst_rows:
  assumes "rows db \<noteq> []" and "distinct (map row_id (rows db))"
  shows "\<exists>worst. worst \<in> set (rows db) \<and> (\<forall>r\<in>set (rows db). ranks_before r worst) \<and>
           worst = hd (filter (\<lambda>r. row_moves r = row_moves worst \<and> row_time r = row_time worst)
                         (rows db)) \<and>
           delete_worst db = db\<lparr>rows := remove1 worst (rows db)\<rparr>"
proof -
  let ?s = "sort_key rank (rev (rows db))"
  let ?w = "last ?s"
  have rne: "rev (rows db) \<noteq> []"
    using assms(1) by simp
  have ne: "?s \<noteq> []"
    using rne by (metis length_sort length_0_conv)
  have "order_by_desc (rows db) = ?w # rev (butlast ?s)"
    using ne by (metis order_by_desc_def append_butlast_last_id rev.simps(2) rev_rev_ident
        rev_append append_Cons append_Nil rev_singleton_conv)
  then have del: "delete_worst db =
      db\<lparr>rows := filter (\<lambda>r. row_id r \<noteq> row_id ?w) (rows db)\<rparr>"
    by (simp add: delete_worst_def)
  have mem: "?w \<in> set (rows db)" and top: "\<forall>r\<in>set (rows db). ranks_before r ?w"
    using last_sort_key_greatest[OF rne] by simp_all
  have "last (filter (\<lambda>r. rank r = rank ?w) ?s) = ?w"
    using ne by (intro last_filter_last) simp_all
  then have "last (rev (filter (\<lambda>r. rank r = rank ?w) (rows db))) = ?w"
    by (simp add: sort_key_stable rev_filter)
  then have "?w = hd (filter (\<lambda>r. rank r = rank ?w) (rows db))"
    by (simp add: last_rev)
  then have first: "?w = hd (filter (\<lambda>r. row_moves r = row_moves ?w \<and> row_time r = row_time ?w)
                              (rows db))"
    by (simp add: rank_def)
  show ?thesis
    using mem top first del filter_other_ids[OF assms(2) mem]
    by (intro exI[of _ ?w]) simp
qed

lemma delete_worst_shrinks:
  assumes "rows db \<noteq> []"
  shows "length (rows (delete_worst db)) < length (rows db)"
proof -
  have "order_by_desc (rows db) \<noteq> []"
    using assms by (simp add: order_by_desc_def) (metis length_sort length_0_conv length_rev)
  then obtain w others where o: "order_by_desc (rows db) = w # others"
    by (cases "order_by_desc (rows db)") simp_all
  then have "w \<in> set (order_by_desc (rows db))"
    by simp
  then have "w \<in> set (rows db)"
    by (simp add: order_by_desc_def)
  then have "length (filter (\<lambda>r. row_id r \<noteq> row_id w) (rows db)) < length (rows db)"
    by (intro length_filter_less[of w]) simp_all
  then show ?thesis
    using o by (simp add: delete_worst_def)
qed

lemma insert_run_Some:
  assumes "insert_run e score ip db = Some (i, db')"
  shows "i = next_rowid db \<and>
         (\<exists>d. bind_text e (body_date score) = Some d \<and>
          rows db' = rows db @
            [\<lparr>row_id = i, row_name = string_of (body_name score),
              row_time = number_of (body_time score), row_moves = number_of (body_moves score),
              row_date = d, ip_address = ip\<rparr>])"
  using assms
  by (auto simp: insert_run_def split: jsval.splits option.splits)

lemma insert_run_length:
  "insert_run e score ip db = Some (i, db') \<Longrightarrow> length (rows db') = Suc (length (rows db))"
  by (auto dest: insert_run_Some)

lemma delete_worst_distinct:
  "distinct (map row_id (rows db)) \<Longrightarrow> distinct (map row_id (rows (delete_worst db)))"
  by (simp add: delete_worst_def distinct_map_filter split: list.splits)

lemma insert_run_distinct:
  assumes "distinct (map row_id (rows db))" and "insert_run e score ip db = Some (i, db')"
  shows "distinct (map row_id (rows db'))"
proof -
  from insert_run_Some[OF assms(2)] obtain d where
    i: "i = next_rowid db" and
    r: "rows db' = rows db @
          [\<lparr>row_id = i, row_name = string_of (body_name score),
            row_time = number_of (body_time score), row_moves = number_of (body_moves score),
            row_date = d, ip_address = ip\<rparr>]"
    by blast
  have "i \<notin> row_id ` set (rows db)"
    unfolding i by (rule next_rowid_fresh)
  then show ?thesis
    using assms(1) by (simp add: r)
qed

text \<open>
  The ids of the rows stay distinct through the \<open>try\<close> block, so every table it builds
  from the empty one satisfies the hypothesis of the theorem on the capacity below.
\<close>

lemma store_score_distinct:
  assumes "distinct (map row_id (rows db))"
  shows "distinct (map row_id (rows (snd (store_score e score ip db))))"
proof -
  let ?db1 = "if 100 \<le> length (rows db) then delete_worst db else db"
  have d1: "distinct (map row_id (rows ?db1))"
    using assms by (simp add: delete_worst_distinct)
  show ?thesis
  proof (cases "insert_run e score ip ?db1")
    case None
    then show ?thesis
      using d1 by (simp add: store_score_def Let_def)
  next
    case (Some res)
    obtain i db2 where res: "res = (i, db2)"
      by (cases res) auto
    have "distinct (map row_id (rows db2))"
      using d1 Some res by (intro insert_run_distinct[of ?db1 e score ip i db2]) simp_all
    then show ?thesis
      using Some res by (simp add: store_score_def Let_def)
  qed
qed

text \<open>
  With a name that is a string and a time and moves that are numbers, the \<open>try\<close> block
  answers with status 500 exactly when the \<open>date\<close> cannot be bound.
\<close>

lemma store_score_500_iff:
  assumes "is_string (body_name score)" "is_number (body_time score)"
    "is_number (body_moves score)"
  shows "fst (store_score e score ip db) = Status500 \<longleftrightarrow> bind_text e (body_date score) = None"
proof -
  obtain n t m where "body_name score = JStr n" "body_time score = JNum t"
    "body_moves score = JNum m"
    using assms
    by (cases "body_name score"; cases "body_time score"; cases "body_moves score") auto
  then show ?thesis
    by (auto simp: store_score_def Let_def insert_run_def split: option.splits)
qed

lemma store_score_capacity:
  assumes "length (rows db) \<le> 100"
  shows "length (rows (snd (store_score e score ip db))) \<le> 100"
proof (cases "length (rows db) = 100")
  case True
  then have "rows db \<noteq> []" by auto
  from delete_worst_shrinks[OF this] True
  have "length (rows (delete_worst db)) < 100" by simp
  then show ?thesis
    using True
    by (auto simp: store_score_def Let_def split: option.splits dest!: insert_run_length)
next
  case False
  with assms have "length (rows db) < 100" by simp
  then show ?thesis
    by (auto simp: store_score_def Let_def split: option.splits dest!: insert_run_length)
qed

lemma post_scores_capacity:
  assumes "length (rows db) \<le> 100"
  shows "length (rows (snd (post_scores e score ip db))) \<le> 100"
  using assms store_score_capacity[OF assms, of e score ip]
  by (simp add: post_scores_def split: sum.splits validation.splits)

lemma post_all_capacity:
  "length (rows db) \<le> 100 \<Longrightarrow> length (rows (snd (post_all reqs db))) \<le> 100"
proof (induction reqs arbitrary: db)
  case Nil
  then show ?case by simp
next
  case (Cons req reqs)
  obtain e ip score where req: "req = (e, ip, score)"
    by (cases req) auto
  have "length (rows (snd (post_scores e score ip db))) \<le> 100"
    using Cons.prems by (rule post_scores_capacity)
  from Cons.IH[OF this] show ?case
    by (auto simp: req split: prod.splits)
qed

text \<open>
  C8, as the code has it: in \<open>server.js\<close>. A table of at most 100 rows has at most 100
  rows after a request, whatever its answer, after any sequence of requests, and after
  the \<open>try\<close> block of the handler, the only place that writes to the table. The \<open>try\<close>
  block is what holds the capacity policy: run for a request whose name is a string and
  whose time and moves are numbers (the handler enters it only behind the validator) on
  a table of exactly 100 rows with distinct ids, as a primary key is, it deletes, when
  it answers with status 200, exactly one row, one that no row of the table ranks behind
  (none has more moves, or as many moves and more time) and of several such rows the one
  inserted first, and appends the new row, whose columns are the values of the request:
  the table has 100 rows again. The plain sibling has no capacity policy.
\<close>

theorem capacity_eviction:
  assumes "distinct (map row_id (rows db))"
    and "is_string (body_name score)" and "is_number (body_time score)"
    and "is_number (body_moves score)"
  shows "(length (rows db) \<le> 100 \<longrightarrow>
            length (rows (snd (post_scores e score ip db))) \<le> 100 \<and>
            length (rows (snd (post_all reqs db))) \<le> 100 \<and>
            length (rows (snd (store_score e score ip db))) \<le> 100) \<and>
         (length (rows db) = 100 \<and> fst (store_score e score ip db) = Status200 i \<longrightarrow>
            (\<exists>worst new.
               worst \<in> set (rows db) \<and>
               (\<forall>r\<in>set (rows db). ranks_before r worst) \<and>
               worst = hd (filter (\<lambda>r. row_moves r = row_moves worst \<and>
                                        row_time r = row_time worst) (rows db)) \<and>
               rows (snd (store_score e score ip db)) = remove1 worst (rows db) @ [new] \<and>
               length (rows (snd (store_score e score ip db))) = 100 \<and>
               row_id new = i \<and>
               row_name new = string_of (body_name score) \<and>
               row_time new = number_of (body_time score) \<and>
               row_moves new = number_of (body_moves score) \<and>
               bind_text e (body_date score) = Some (row_date new) \<and>
               ip_address new = ip))"
proof (intro conjI impI)
  assume le: "length (rows db) \<le> 100"
  then show "length (rows (snd (post_scores e score ip db))) \<le> 100"
    by (rule post_scores_capacity)
  from le show "length (rows (snd (post_all reqs db))) \<le> 100"
    by (rule post_all_capacity)
  from le show "length (rows (snd (store_score e score ip db))) \<le> 100"
    by (rule store_score_capacity)
next
  assume a: "length (rows db) = 100 \<and> fst (store_score e score ip db) = Status200 i"
  then have len: "length (rows db) = 100" and ok: "fst (store_score e score ip db) = Status200 i"
    by simp_all
  have ne: "rows db \<noteq> []"
    using len by auto
  obtain worst where w: "worst \<in> set (rows db)" "\<forall>r\<in>set (rows db). ranks_before r worst"
    "worst = hd (filter (\<lambda>r. row_moves r = row_moves worst \<and> row_time r = row_time worst)
                   (rows db))"
    "delete_worst db = db\<lparr>rows := remove1 worst (rows db)\<rparr>"
    using delete_worst_rows[OF ne assms(1)] by blast
  obtain db2 where ins: "insert_run e score ip (delete_worst db) = Some (i, db2)"
    and res: "store_score e score ip db = (Status200 i, db2)"
    using ok len
    by (auto simp: store_score_def Let_def split: option.splits)
  from insert_run_Some[OF ins] obtain d where
    b: "bind_text e (body_date score) = Some d" and
    r: "rows db2 = rows (delete_worst db) @
          [\<lparr>row_id = i, row_name = string_of (body_name score),
            row_time = number_of (body_time score), row_moves = number_of (body_moves score),
            row_date = d, ip_address = ip\<rparr>]"
    by blast
  let ?new = "\<lparr>row_id = i, row_name = string_of (body_name score),
            row_time = number_of (body_time score), row_moves = number_of (body_moves score),
            row_date = d, ip_address = ip\<rparr>"
  have "length (remove1 worst (rows db)) = 99"
    using w(1) len by (simp add: length_remove1)
  then show "\<exists>worst new.
               worst \<in> set (rows db) \<and>
               (\<forall>r\<in>set (rows db). ranks_before r worst) \<and>
               worst = hd (filter (\<lambda>r. row_moves r = row_moves worst \<and>
                                        row_time r = row_time worst) (rows db)) \<and>
               rows (snd (store_score e score ip db)) = remove1 worst (rows db) @ [new] \<and>
               length (rows (snd (store_score e score ip db))) = 100 \<and>
               row_id new = i \<and>
               row_name new = string_of (body_name score) \<and>
               row_time new = number_of (body_time score) \<and>
               row_moves new = number_of (body_moves score) \<and>
               bind_text e (body_date score) = Some (row_date new) \<and>
               ip_address new = ip"
    using w(1,2) w(3)[symmetric] w(4) r res b
    by (intro exI[of _ worst] exI[of _ ?new]) simp
qed

text \<open>The table of 100 rows is kept as it is written, not unfolded into its rows.\<close>

declare upt_rec_numeral [simp del]

lemma rows_full_table:
  "rows full_table =
     example_row 1 200 500 # map (\<lambda>k. example_row k 63 100) [2..<100]
       @ [example_row 100 200 500]"
  by (simp add: full_table_def)

lemma full_table_distinct: "distinct (map row_id (rows full_table))"
  by (auto simp: rows_full_table example_row_def o_def)

lemma full_table_length: "length (rows full_table) = 100"
  by (simp add: rows_full_table)

lemma full_table_worst:
  assumes "w \<in> set (rows full_table)" and "\<forall>r\<in>set (rows full_table). ranks_before r w"
    and "w = hd (filter (\<lambda>r. row_moves r = row_moves w \<and> row_time r = row_time w)
                   (rows full_table))"
  shows "w = example_row 1 200 500"
proof -
  have "ranks_before (example_row 1 200 500) w"
    using assms(2) by (simp add: rows_full_table)
  moreover have "\<not> ranks_before (example_row 1 200 500) (example_row k 63 100)" for k
    by (simp add: ranks_before_def example_row_def)
  ultimately have "w = example_row 1 200 500 \<or> w = example_row 100 200 500"
    using assms(1) by (auto simp: rows_full_table)
  then have "row_moves w = Fin 200" and "row_time w = Fin 500"
    by (auto simp: example_row_def)
  then have "w = hd (filter (\<lambda>r. row_moves r = Fin 200 \<and> row_time r = Fin 500)
                       (rows full_table))"
    using assms(3) by simp
  then show ?thesis
    by (simp add: rows_full_table example_row_def)
qed

lemma delete_worst_full_table:
  "delete_worst full_table =
     \<lparr>rows = map (\<lambda>k. example_row k 63 100) [2..<100] @ [example_row 100 200 500],
      sqlite_sequence = 100\<rparr>"
proof -
  have ne: "rows full_table \<noteq> []"
    by (simp add: rows_full_table)
  obtain w where w: "w \<in> set (rows full_table)"
    "\<forall>r\<in>set (rows full_table). ranks_before r w"
    "w = hd (filter (\<lambda>r. row_moves r = row_moves w \<and> row_time r = row_time w)
               (rows full_table))"
    "delete_worst full_table = full_table\<lparr>rows := remove1 w (rows full_table)\<rparr>"
    using delete_worst_rows[OF ne full_table_distinct] by blast
  have "w = example_row 1 200 500"
    using w(1,2,3) by (rule full_table_worst)
  then show ?thesis
    using w(4) by (simp add: full_table_def)
qed

lemma next_rowid_after_eviction:
  "next_rowid
     \<lparr>rows = map (\<lambda>k. example_row k 63 100) [2..<100] @ [example_row 100 200 500],
      sqlite_sequence = 100\<rparr> = 101"
proof -
  have "max 100 (foldr max (map row_id (map (\<lambda>k. example_row k 63 100) [2..<100]
                                          @ [example_row 100 200 500])) 0) = 100"
    by (rule foldr_max_bound) (auto simp: example_row_def)
  then show ?thesis
    by (simp add: next_rowid_def)
qed

lemma fresh_fields:
  "body_name fresh_body = JStr (utf16 ''Ana'')" "body_time fresh_body = JNum (Fin 100)"
  "body_moves fresh_body = JNum (Fin 63)"
  "body_date fresh_body = JStr (utf16 ''2026-11-02T15:59:00.000Z'')"
  by (simp_all add: fresh_body_def)

theorem capacity_eviction_witness:
  "distinct (map row_id (rows full_table)) \<and>
   is_string (body_name fresh_body) \<and> is_number (body_time fresh_body) \<and>
   is_number (body_moves fresh_body) \<and>
   length (rows full_table) = 100 \<and>
   fst (store_score example_env fresh_body example_ip full_table) = Status200 101 \<and>
   rows (snd (store_score example_env fresh_body example_ip full_table)) =
     map (\<lambda>k. example_row k 63 100) [2..<100] @
     [example_row 100 200 500,
      \<lparr>row_id = 101, row_name = utf16 ''Ana'', row_time = Fin 100, row_moves = Fin 63,
       row_date = utf16 ''2026-11-02T15:59:00.000Z'', ip_address = example_ip\<rparr>] \<and>
   length (rows (snd (store_score example_env fresh_body example_ip full_table))) = 100"
proof -
  have p: "store_score example_env fresh_body example_ip full_table =
     (Status200 101,
      \<lparr>rows = map (\<lambda>k. example_row k 63 100) [2..<100] @
         [example_row 100 200 500,
          \<lparr>row_id = 101, row_name = utf16 ''Ana'', row_time = Fin 100, row_moves = Fin 63,
           row_date = utf16 ''2026-11-02T15:59:00.000Z'', ip_address = example_ip\<rparr>],
       sqlite_sequence = 101\<rparr>)"
    by (simp add: store_score_def full_table_length delete_worst_full_table insert_run_def
        next_rowid_after_eviction fresh_fields Let_def)
  have shapes: "is_string (body_name fresh_body)" "is_number (body_time fresh_body)"
    "is_number (body_moves fresh_body)"
    by (simp_all add: fresh_fields)
  show ?thesis
    using capacity_eviction
            [OF full_table_distinct shapes, of example_env example_ip "six_times fresh_body" 101]
      full_table_distinct full_table_length shapes
    by (simp add: p)
qed

text \<open>
  C8 as it is stated fails on the plain sibling: a request on a table of 100 rows is
  stored as row 101, and no row is deleted.
\<close>

theorem plain_sibling_has_no_cap:
  "length (rows full_table_plain) = 100 \<and>
   fst (post_scores_plain example_env fresh_body full_table_plain) = Status200 101 \<and>
   length (rows (snd (post_scores_plain example_env fresh_body full_table_plain))) = 101"
proof -
  have "max 100 (foldr max (map row_id (rows full_table_plain)) 0) = 100"
    by (rule foldr_max_bound)
      (auto simp: full_table_plain_def rows_full_table example_row_def select_columns_def)
  then have n: "next_rowid full_table_plain = 101"
    by (simp add: next_rowid_def full_table_plain_def)
  have v: "validateScore_plain fresh_body = Valid"
    by (simp add: validateScore_plain_def fresh_body_def minMoves_plain_def trim_def
        is_whitespace_def utf16_def)
  have l: "length (rows full_table_plain) = 100"
    by (simp add: full_table_plain_def full_table_length)
  show ?thesis
    by (simp add: post_scores_plain_def v insert_run_plain_def fresh_fields n l)
qed

subsection \<open>The limit on the submissions of one address\<close>

text \<open>
  Every request that passes the checks of its fields reaches the statement that counts
  the recent rows of its address, and the validator throws there: the answer is status
  500, whatever the table holds, and nothing is stored.
\<close>

lemma passing_fields_answered_500:
  assumes "nonblank_string (body_name score)" and "length (string_of (body_name score)) \<le> 50"
    and "time_in_range (body_time score)"
    and "is_number (body_moves score)" and "Fin 63 \<le> number_of (body_moves score)"
    and "date_getTime e (body_date score) = Some t" and "t \<le> now e"
  shows "post_scores e score ip db = (Status500, db)"
proof -
  have "Fin 0 \<le> Fin 63" by simp
  then have "Fin 0 \<le> number_of (body_moves score)"
    using assms(5) by (rule order_trans)
  then have "validateScore e db score ip = Inl SqliteError"
    using assms
    by (simp add: validateScore_def nonblank_string_iff time_in_range_iff minMoves_server_def
        not_less)
  then show ?thesis
    by (rule post_scores_threw)
qed

lemma six_times_eq:
  "six_times body =
     [(example_env, example_ip, body), (example_env, example_ip, body),
      (example_env, example_ip, body), (example_env, example_ip, body),
      (example_env, example_ip, body), (example_env, example_ip, body)]"
  by (simp add: six_times_def eval_nat_numeral)

lemma fresh_body_answered_500:
  "post_scores example_env fresh_body example_ip db = (Status500, db)"
  by (rule passing_fields_answered_500[where t = 1793635140000])
    (simp_all add: example_env_def fresh_body_def trim_def is_whitespace_def utf16_def)

text \<open>
  C9 says that a submission of an address with five records of the last hour is
  answered with status 400, the sixth of six submissions within an hour among them. In
  \<open>server.js\<close> a valid request of an address with five rows dated one minute ago is
  answered with status 500, and so is each of six valid requests of one address on an
  empty table, none of which is stored.
\<close>

theorem sixth_submission_answered_500:
  "length (filter (\<lambda>r. ip_address r = example_ip) (rows busy_table)) = 5 \<and>
   post_scores example_env fresh_body example_ip busy_table = (Status500, busy_table) \<and>
   post_all (six_times fresh_body) empty_table =
     ([Status500, Status500, Status500, Status500, Status500, Status500], empty_table)"
  by (simp add: six_times_eq fresh_body_answered_500 busy_table_def)

end
